theory Spec2Isabelle
  imports Main "HOL-Library.AList" "HOL-Library.Sublist" "HOL-Library.Word"
begin

section \<open>JavaScript values\<close>

text \<open>
  The router handles loosely typed records (the engine's \<open>params\<close>, \<open>session\<close> and
  \<open>prompt\<close>, the parsed request body, the resolution result). A record is the list of
  its own enumerable entries in the order \<open>Object.entries\<close> yields them; a property that
  is absent reads as \<open>undefined\<close>.
\<close>

datatype jsval =
    JUndefined
  | JNull
  | JBool bool
  | JNum int
  | JStr string
  | JArr "jsval list"
  | JObj "(string \<times> jsval) list"

type_synonym obj = "(string \<times> jsval) list"

definition field :: "obj \<Rightarrow> string \<Rightarrow> jsval" where
  "field ob k = (case map_of ob k of None \<Rightarrow> JUndefined | Some v \<Rightarrow> v)"

text \<open>JavaScript truthiness, as tested by \<open>if (x)\<close>, \<open>!x\<close> and \<open>x ? a : b\<close>.\<close>

fun truthy :: "jsval \<Rightarrow> bool" where
  "truthy JUndefined = False"
| "truthy JNull = False"
| "truthy (JBool b) = b"
| "truthy (JNum n) = (n \<noteq> 0)"
| "truthy (JStr s) = (s \<noteq> [])"
| "truthy (JArr xs) = True"
| "truthy (JObj kvs) = True"

text \<open>
  \<open>lodash/isEmpty\<close>: strings, arrays and records are empty when they have no element;
  every other value (numbers, booleans, \<open>null\<close>, \<open>undefined\<close>) counts as empty.
\<close>

fun isEmpty :: "jsval \<Rightarrow> bool" where
  "isEmpty (JStr s) = (s = [])"
| "isEmpty (JArr xs) = (xs = [])"
| "isEmpty (JObj kvs) = (kvs = [])"
| "isEmpty v = True"

section \<open>JavaScript strings\<close>

text \<open>\<open>Array.prototype.join\<close> on a list of strings.\<close>

fun join :: "string \<Rightarrow> string list \<Rightarrow> string" where
  "join sep [] = []"
| "join sep [x] = x"
| "join sep (x # y # ys) = x @ sep @ join sep (y # ys)"

text \<open>
  \<open>String.prototype.split\<close> with a one-character separator: the pieces between the
  occurrences of the separator, empty pieces included (\<open>"".split(" ")\<close> is \<open>[""]\<close>).
\<close>

fun split_on :: "char \<Rightarrow> string \<Rightarrow> string list" where
  "split_on c [] = [[]]"
| "split_on c (x # xs) =
     (if x = c then [] # split_on c xs
      else (case split_on c xs of
              [] \<Rightarrow> [[x]]
            | y # ys \<Rightarrow> (x # y) # ys))"

section \<open>The debug serializer\<close>

text \<open>
  \<^verbatim>\<open>
  const keys = new Set();
  const debug = (obj: any) =>
    querystring.stringify(
      Object.entries(obj).reduce(
        (acc, [key, value]) => {
          keys.add(key);
          if (isEmpty(value)) return acc;
          acc[key] = inspect(value, { depth: null });
          return acc;
        }, {}),
      "<br/>", ": ",
      { encodeURIComponent(value) {
          return keys.has(value) ? `<strong>${value}</strong>` : value; } });
  \<close>
  \<open>keys\<close> is a module-level set: the model threads it through every call, so \<open>debug\<close>
  takes the set as it stands before the call and returns it as it stands afterwards.
  \<open>util.inspect\<close> is a parameter.
\<close>

text \<open>
  The accumulator \<open>acc\<close> starts as the plain object \<open>{}\<close> and holds strings. An
  assignment \<open>acc[key] = v\<close> follows the rules of an ordinary object:
  \<^item> for the key \<open>__proto__\<close> it reaches the setter inherited from \<open>Object.prototype\<close>,
    which ignores a string: nothing is stored;
  \<^item> a key that is already there keeps its place and gets the new value;
  \<^item> a new key that is an array index (a canonical decimal numeral below \<open>2^32 - 1\<close>)
    is enumerated among the array indices, in ascending numeric order, before all other
    keys;
  \<^item> any other new key is enumerated last.
\<close>

definition is_digit :: "char \<Rightarrow> bool" where
  "is_digit c \<longleftrightarrow> 48 \<le> (of_char c :: nat) \<and> (of_char c :: nat) \<le> 57"

definition decimal :: "string \<Rightarrow> nat" where
  "decimal s = foldl (\<lambda>n c. 10 * n + (of_char c - 48)) 0 s"

definition array_index :: "string \<Rightarrow> bool" where
  "array_index s \<longleftrightarrow>
     s \<noteq> [] \<and> list_all is_digit s \<and> (s = ''0'' \<or> hd s \<noteq> CHR ''0'') \<and> decimal s < 4294967295"

fun insert_index :: "string \<Rightarrow> string \<Rightarrow> (string \<times> string) list \<Rightarrow> (string \<times> string) list" where
  "insert_index key v [] = [(key, v)]"
| "insert_index key v (kv # rest) =
     (if array_index (fst kv) \<and> decimal (fst kv) < decimal key
      then kv # insert_index key v rest
      else (key, v) # kv # rest)"

definition assign :: "string \<Rightarrow> string \<Rightarrow> (string \<times> string) list \<Rightarrow> (string \<times> string) list" where
  "assign key v acc =
     (if key = ''__proto__'' then acc
      else if array_index key \<and> map_of acc key = None then insert_index key v acc
      else AList.update key v acc)"

definition reducer ::
  "(jsval \<Rightarrow> string) \<Rightarrow> (string \<times> string) list \<times> string set \<Rightarrow> string \<times> jsval
     \<Rightarrow> (string \<times> string) list \<times> string set" where
  "reducer inspect st kv =
     (case st of (acc, keys) \<Rightarrow> case kv of (key, val) \<Rightarrow>
        let keys1 = insert key keys in
        if isEmpty val then (acc, keys1)
        else (assign key (inspect val) acc, keys1))"

text \<open>
  \<open>querystring.stringify(obj, sep, eq, {encodeURIComponent})\<close> on a record of strings:
  each key and each value goes through the supplied encoder, key and value are joined by
  \<open>eq\<close>, and \<open>sep\<close> is put in front of a pair whenever the text built so far is
  non-empty.
\<close>

fun stringify_loop ::
  "(string \<Rightarrow> string) \<Rightarrow> string \<Rightarrow> string \<Rightarrow> string \<Rightarrow> (string \<times> string) list \<Rightarrow> string" where
  "stringify_loop encode sep eq fields [] = fields"
| "stringify_loop encode sep eq fields ((k, v) # rest) =
     (let ks = encode k @ eq;
          fields1 = (if fields \<noteq> [] then fields @ sep else fields)
      in stringify_loop encode sep eq (fields1 @ ks @ encode v) rest)"

definition stringify ::
  "(string \<times> string) list \<Rightarrow> string \<Rightarrow> string \<Rightarrow> (string \<Rightarrow> string) \<Rightarrow> string" where
  "stringify ob sep eq encode = stringify_loop encode sep eq [] ob"

definition encodeURIComponent :: "string set \<Rightarrow> string \<Rightarrow> string" where
  "encodeURIComponent keys val =
     (if val \<in> keys then ''<strong>'' @ val @ ''</strong>'' else val)"

definition debug :: "(jsval \<Rightarrow> string) \<Rightarrow> obj \<Rightarrow> string set \<Rightarrow> string \<times> string set" where
  "debug inspect ob keys =
     (case foldl (reducer inspect) ([], keys) ob of
        (acc, keys1) \<Rightarrow>
          (stringify acc ''<br/>'' '': '' (encodeURIComponent keys1), keys1))"


text \<open>
  A concrete \<open>util.inspect\<close> for the examples. It agrees with Node's on values that fit
  on one line: strings free of quotes, backslashes and control characters (printed between
  single quotes), integers, booleans, \<open>null\<close>, \<open>undefined\<close>, and short arrays and
  records of such values whose keys are identifiers.
\<close>

fun digits :: "nat \<Rightarrow> string" where
  "digits n =
     (if n < 10 then [''0123456789'' ! n]
      else digits (n div 10) @ [''0123456789'' ! (n mod 10)])"

fun inspect_plain :: "jsval \<Rightarrow> string" where
  "inspect_plain JUndefined = ''undefined''"
| "inspect_plain JNull = ''null''"
| "inspect_plain (JBool b) = (if b then ''true'' else ''false'')"
| "inspect_plain (JNum n) = (if n < 0 then ''-'' @ digits (nat (- n)) else digits (nat n))"
| "inspect_plain (JStr s) = [CHR 0x27] @ s @ [CHR 0x27]"
| "inspect_plain (JArr xs) =
     (if xs = [] then ''[]'' else ''[ '' @ join '', '' (map inspect_plain xs) @ '' ]'')"
| "inspect_plain (JObj kvs) =
     (if kvs = [] then ''{}''
      else ''{ '' @ join '', '' (map (\<lambda>kv. fst kv @ '': '' @ inspect_plain (snd kv)) kvs) @ '' }'')"

section \<open>Random bytes and their hexadecimal rendering\<close>

text \<open>\<open>Buffer.prototype.toString("hex")\<close>: two lower-case hexadecimal digits per byte.\<close>

definition hex_digit :: "nat \<Rightarrow> char" where
  "hex_digit n = ''0123456789abcdef'' ! n"

definition toString_hex :: "8 word list \<Rightarrow> string" where
  "toString_hex bs =
     concat (map (\<lambda>b. [hex_digit (unat b div 16), hex_digit (unat b mod 16)]) bs)"

section \<open>Errors, engine data, requests\<close>

text \<open>
  Everything a handler can throw. \<open>SessionNotFound\<close> is the engine's error class the
  router's middleware tests for; it carries \<open>status\<close>, \<open>message\<close> and
  \<open>error_description\<close>. \<open>AssertionError\<close> is what \<open>assert.equal\<close> (strict mode) throws,
  with the actual and the expected value. \<open>TypeError\<close> stands for any \<open>TypeError\<close>,
  whatever its message.
\<close>

datatype error =
    SessionNotFound nat string string
  | AssertionError jsval jsval
  | TypeError
  | Thrown string

record PromptDetail =
  name :: string
  reasons :: "string list"
  details :: obj

record Interaction =
  uid :: string
  prompt :: PromptDetail
  params :: obj
  session :: "obj option"

record account =
  accountId :: string

record tokenset =
  id_claims :: "error + obj"

record cookie_opts =
  path :: string
  sameSite :: "string option"

record request =
  params_uid :: string
  body :: obj
  cookies :: "string \<Rightarrow> string option"

text \<open>
  The calls a handler makes on its collaborators, in the order it makes them. The two
  account-store lookups record what the store answered.
\<close>

datatype event =
    InteractionDetails
  | ClientFind jsval
  | FindAccount jsval
  | AccountClaims account string string obj "string list"
  | FindByLogin jsval "error + account option"
  | FindByFederated string obj "error + account option"
  | InteractionFinished jsval bool
  | Save obj
  | Render string obj
  | Next
  | CallbackParams
  | CookiesGet string
  | CookiesSet string string cookie_opts
  | GoogleCallback obj "string option" "string option" string
  | TokensetClaims
  | RandomBytes nat
  | AuthorizationUrl string string string
  | Redirect string

text \<open>
  The collaborators (the OIDC engine, the account store, the federated client, the view
  renderer, the downstream middleware, Koa's cookie jar and redirect helper,
  \<open>util.inspect\<close> and the operating system's entropy) are parameters: a \<open>world\<close> fixes
  what each call answers. A call that can throw or reject answers \<open>Inl\<close> with the error.
  \<^item> \<open>cookie_jar\<close> is what \<open>ctx.cookies.set(name, value, options)\<close> answers: the jar
    refuses a name, a value or an option that cannot stand in a header by throwing a
    \<open>TypeError\<close>, and then stores nothing.
  \<^item> \<open>redirect_location\<close> and \<open>redirect_page\<close> are what \<open>ctx.redirect(url)\<close> writes
    for a target: the \<open>Location\<close> header, and the response type and body (they depend
    on the request's headers and on Koa's encoding of the target).
\<close>

record world =
  inspect :: "jsval \<Rightarrow> string"
  entropy :: "nat \<Rightarrow> 8 word"
  interactionDetails :: "error + Interaction"
  interactionFinished :: "jsval \<Rightarrow> bool \<Rightarrow> error + unit"
  Client_find :: "jsval \<Rightarrow> error + jsval"
  findAccount :: "jsval \<Rightarrow> error + account option"
  claims :: "account \<Rightarrow> string \<Rightarrow> string \<Rightarrow> obj \<Rightarrow> string list \<Rightarrow> error + obj"
  findByLogin :: "jsval \<Rightarrow> error + account option"
  findByFederated :: "string \<Rightarrow> obj \<Rightarrow> error + account option"
  save :: "obj \<Rightarrow> error + unit"
  render :: "string \<Rightarrow> obj \<Rightarrow> error + unit"
  downstream :: "error + unit"
  google :: jsval
  callbackParams :: obj
  callback :: "obj \<Rightarrow> string option \<Rightarrow> string option \<Rightarrow> string \<Rightarrow> error + tokenset"
  authorizationUrl :: "string \<Rightarrow> string \<Rightarrow> string \<Rightarrow> string"
  cookie_jar :: "string \<Rightarrow> string \<Rightarrow> cookie_opts \<Rightarrow> error + unit"
  redirect_location :: "string \<Rightarrow> string"
  redirect_page :: "string \<Rightarrow> string \<times> string"

text \<open>
  What a request changes: the response under construction (\<open>ctx.status\<close>, \<open>ctx.type\<close>,
  \<open>ctx.body\<close>, the headers set with \<open>ctx.set\<close> or by \<open>ctx.redirect\<close>, the cookies
  stored by \<open>ctx.cookies.set\<close>), the module-level \<open>keys\<close> set
  of the debug serializer, the number of entropy bytes consumed so far, and the trace of
  collaborator calls.
\<close>

record state =
  status :: nat
  ctype :: string
  response_body :: string
  headers :: "(string \<times> string) list"
  set_cookies :: "(string \<times> string \<times> cookie_opts) list"
  keys :: "string set"
  entropy_used :: nat
  trace :: "event list"

type_synonym 'a outcome = "(error + 'a) \<times> state"

definition emit :: "event \<Rightarrow> state \<Rightarrow> state" where
  "emit e s = s\<lparr>trace := trace s @ [e]\<rparr>"

text \<open>Sequencing of \<open>await\<close>: a thrown error ends the handler.\<close>

definition andThen :: "'a outcome \<Rightarrow> ('a \<Rightarrow> state \<Rightarrow> 'b outcome) \<Rightarrow> 'b outcome" where
  "andThen m f = (case m of (Inl e, s) \<Rightarrow> (Inl e, s) | (Inr x, s) \<Rightarrow> f x s)"

definition call_interactionDetails :: "world \<Rightarrow> state \<Rightarrow> Interaction outcome" where
  "call_interactionDetails w s = (interactionDetails w, emit InteractionDetails s)"

definition call_interactionFinished :: "world \<Rightarrow> jsval \<Rightarrow> bool \<Rightarrow> state \<Rightarrow> unit outcome" where
  "call_interactionFinished w result mergeWithLastSubmission s =
     (interactionFinished w result mergeWithLastSubmission,
      emit (InteractionFinished result mergeWithLastSubmission) s)"

definition call_Client_find :: "world \<Rightarrow> jsval \<Rightarrow> state \<Rightarrow> jsval outcome" where
  "call_Client_find w client_id s = (Client_find w client_id, emit (ClientFind client_id) s)"

definition call_findAccount :: "world \<Rightarrow> jsval \<Rightarrow> state \<Rightarrow> (account option) outcome" where
  "call_findAccount w ident s = (findAccount w ident, emit (FindAccount ident) s)"

definition call_claims ::
  "world \<Rightarrow> account \<Rightarrow> string \<Rightarrow> string \<Rightarrow> obj \<Rightarrow> string list \<Rightarrow> state \<Rightarrow> obj outcome" where
  "call_claims w a use scope cl rejected s =
     (claims w a use scope cl rejected, emit (AccountClaims a use scope cl rejected) s)"

definition call_findByLogin :: "world \<Rightarrow> jsval \<Rightarrow> state \<Rightarrow> (account option) outcome" where
  "call_findByLogin w login s =
     (findByLogin w login, emit (FindByLogin login (findByLogin w login)) s)"

definition call_findByFederated ::
  "world \<Rightarrow> string \<Rightarrow> obj \<Rightarrow> state \<Rightarrow> (account option) outcome" where
  "call_findByFederated w provider cl s =
     (findByFederated w provider cl,
      emit (FindByFederated provider cl (findByFederated w provider cl)) s)"

definition call_save :: "world \<Rightarrow> Interaction \<Rightarrow> state \<Rightarrow> unit outcome" where
  "call_save w interaction s = (save w (params interaction), emit (Save (params interaction)) s)"

definition call_render :: "world \<Rightarrow> string \<Rightarrow> obj \<Rightarrow> state \<Rightarrow> unit outcome" where
  "call_render w view locals s = (render w view locals, emit (Render view locals) s)"

definition call_next :: "world \<Rightarrow> state \<Rightarrow> unit outcome" where
  "call_next w s = (downstream w, emit Next s)"

definition call_callback ::
  "world \<Rightarrow> obj \<Rightarrow> string option \<Rightarrow> string option \<Rightarrow> string \<Rightarrow> state \<Rightarrow> tokenset outcome" where
  "call_callback w ps st nonce response_type s =
     (callback w ps st nonce response_type, emit (GoogleCallback ps st nonce response_type) s)"

definition call_tokenset_claims :: "tokenset \<Rightarrow> state \<Rightarrow> obj outcome" where
  "call_tokenset_claims ts s = (id_claims ts, emit TokensetClaims s)"

definition assert_equal :: "jsval \<Rightarrow> jsval \<Rightarrow> state \<Rightarrow> unit outcome" where
  "assert_equal actual expected s =
     (if actual = expected then (Inr (), s) else (Inl (AssertionError actual expected), s))"

definition cookies_get :: "request \<Rightarrow> string \<Rightarrow> state \<Rightarrow> string option \<times> state" where
  "cookies_get rq nm s = (cookies rq nm, emit (CookiesGet nm) s)"

text \<open>
  \<open>ctx.cookies.set\<close>: the call is made; the cookie is stored unless the jar throws, and
  an error thrown ends the handler.
\<close>

definition cookies_set :: "world \<Rightarrow> string \<Rightarrow> string \<Rightarrow> cookie_opts \<Rightarrow> state \<Rightarrow> unit outcome" where
  "cookies_set w nm val opts s =
     (case cookie_jar w nm val opts of
        Inl e \<Rightarrow> (Inl e, emit (CookiesSet nm val opts) s)
      | Inr u \<Rightarrow>
          (Inr u,
           emit (CookiesSet nm val opts) (s\<lparr>set_cookies := set_cookies s @ [(nm, val, opts)]\<rparr>)))"

definition ctx_set :: "string \<Rightarrow> string \<Rightarrow> state \<Rightarrow> state" where
  "ctx_set h v s = s\<lparr>headers := AList.update h v (headers s)\<rparr>"

text \<open>
  \<open>ctx.redirect(url)\<close>: Koa sets the \<open>Location\<close> header, makes the status 302 unless
  it already is a redirect status, and writes the type and body of the redirect page.
\<close>

definition redirect :: "world \<Rightarrow> string \<Rightarrow> state \<Rightarrow> unit outcome" where
  "redirect w url s =
     (let s1 = ctx_set ''Location'' (redirect_location w url) s;
          s2 = (if status s1 \<in> {300, 301, 302, 303, 305, 307, 308} then s1
                else s1\<lparr>status := 302\<rparr>)
      in (Inr (),
          emit (Redirect url)
            (s2\<lparr>ctype := fst (redirect_page w url), response_body := snd (redirect_page w url)\<rparr>)))"

text \<open>\<open>crypto.randomBytes(n)\<close>: the next \<open>n\<close> bytes of the entropy stream.\<close>

definition randomBytes :: "world \<Rightarrow> nat \<Rightarrow> state \<Rightarrow> 8 word list \<times> state" where
  "randomBytes w n s =
     (map (entropy w) [entropy_used s ..< entropy_used s + n],
      emit (RandomBytes n) (s\<lparr>entropy_used := entropy_used s + n\<rparr>))"

text \<open>A call of \<open>debug\<close> from a handler: it reads and updates the module-level set.\<close>

definition call_debug :: "world \<Rightarrow> obj \<Rightarrow> state \<Rightarrow> string \<times> state" where
  "call_debug w ob s =
     (case debug (inspect w) ob (keys s) of (out, keys1) \<Rightarrow> (out, s\<lparr>keys := keys1\<rparr>))"

section \<open>The error renderer and the router's middleware\<close>

text \<open>
  \<open>renderError\<close> sets \<open>ctx.type\<close> and \<open>ctx.body\<close>: a fixed page around one
  \<open><pre><strong>key</strong>: value</pre>\<close> element per entry of \<open>out\<close>.
\<close>

definition page_head :: string where
  \<open>page_head =
     ''<!DOCTYPE html>\<newline><head>\<newline>  <meta charset="utf-8">\<newline>  <title>'' @
     CHR ''o'' # ''ops! something went wrong</title>\<newline>'' @
     ''  <meta name="viewport" content="width=device-width, initial-scale=1, shrink-to-fit=no">\<newline>'' @
     ''  <meta http-equiv="x-ua-compatible" content="ie=edge">\<newline>  <style>\<newline>'' @
     ''    @import url(https://fonts.googleapis.com/css?family=Roboto:400,100);'' @
     ''h1{font-weight:100;text-align:center;font-size:2.3em}'' @
     ''body{font-family:Roboto,sans-serif;margin-top:25px;margin-bottom:25px}'' @
     ''.container{padding:0 40px 10px;width:274px;background-color:#F7F7F7;'' @
     ''margin:0 auto 10px;border-radius:2px;box-shadow:0 2px 2px rgba(0,0,0,.3);overflow:hidden}'' @
     ''pre{white-space:pre-wrap;white-space:-moz-pre-wrap;white-space:-pre-wrap;'' @
     ''white-space:-o-pre-wrap;word-wrap:break-word;margin:0 0 0 1em;text-indent:-1em}\<newline>'' @
     ''  </style>\<newline></head>\<newline><body>\<newline>  <div class="container">\<newline>    <h1>'' @
     CHR ''o'' # ''ops! something went wrong</h1>\<newline>    ''\<close>

definition page_tail :: string where
  "page_tail = ''\<newline>  </div>\<newline></body>\<newline></html>''"

definition renderError :: "state \<Rightarrow> (string \<times> string) list \<Rightarrow> error \<Rightarrow> state" where
  "renderError ctx out err =
     ctx\<lparr>ctype := ''html'',
         response_body :=
           page_head @
           join [] (map (\<lambda>kv. ''<pre><strong>'' @ fst kv @ ''</strong>: '' @ snd kv @ ''</pre>'') out) @
           page_tail\<rparr>"

text \<open>
  \<^verbatim>\<open>
  router.use(async (ctx, next) => {
    ctx.set("Pragma", "no-cache");
    ctx.set("Cache-Control", "no-cache, no-store");
    try { await next(); }
    catch (err) {
      if (err instanceof SessionNotFound) {
        ctx.status = err.status;
        const { message: error, error_description } = err;
        renderError(ctx, { error, error_description }, err);
      } else { throw err; }
    }
  });
  \<close>
  \<open>nxt\<close> is the rest of the chain: the route's handler.
\<close>

definition middleware :: "(state \<Rightarrow> unit outcome) \<Rightarrow> state \<Rightarrow> unit outcome" where
  "middleware nxt ctx =
     (let ctx1 = ctx_set ''Pragma'' ''no-cache'' ctx;
          ctx2 = ctx_set ''Cache-Control'' ''no-cache, no-store'' ctx1
      in case nxt ctx2 of
           (Inr u, ctx3) \<Rightarrow> (Inr u, ctx3)
         | (Inl err, ctx3) \<Rightarrow>
             (case err of
                SessionNotFound st message error_description \<Rightarrow>
                  (Inr (),
                   renderError (ctx3\<lparr>status := st\<rparr>)
                     [(''error'', message), (''error_description'', error_description)] err)
              | _ \<Rightarrow> (Inl err, ctx3)))"

section \<open>The route handlers\<close>

text \<open>The engine's prompt object, as \<open>debug(prompt)\<close> enumerates it.\<close>

definition prompt_entries :: "PromptDetail \<Rightarrow> obj" where
  "prompt_entries p =
     [(''name'', JStr (name p)), (''reasons'', JArr (map JStr (reasons p))),
      (''details'', JObj (details p))]"

text \<open>
  The locals every view gets from its debug panel: \<open>session\<close>, then \<open>dbg.params\<close>, then
  \<open>dbg.prompt\<close>, serialized in this order.
\<close>

definition debug_locals :: "world \<Rightarrow> Interaction \<Rightarrow> state \<Rightarrow> obj \<times> state" where
  "debug_locals w d s =
     (case (case session d of
              None \<Rightarrow> (JUndefined, s)
            | Some sess \<Rightarrow> (case call_debug w sess s of (out, s1) \<Rightarrow> (JStr out, s1))) of
        (session_dbg, s1) \<Rightarrow>
          case call_debug w (params d) s1 of (params_dbg, s2) \<Rightarrow>
          case call_debug w (prompt_entries (prompt d)) s2 of (prompt_dbg, s3) \<Rightarrow>
            ([(''session'', session_dbg),
              (''dbg'', JObj [(''params'', JStr params_dbg), (''prompt'', JStr prompt_dbg)])], s3))"

text \<open>\<open>GET /interaction/:uid\<close>\<close>

definition get_interaction :: "world \<Rightarrow> request \<Rightarrow> state \<Rightarrow> unit outcome" where
  "get_interaction w rq ctx =
     andThen (call_interactionDetails w ctx) (\<lambda>d ctx1.
     andThen (call_Client_find w (field (params d) ''client_id'') ctx1) (\<lambda>client ctx2.
       if name (prompt d) = ''select_account'' then
         (case session d of
            None \<Rightarrow>
              call_interactionFinished w (JObj [(''select_account'', JObj [])]) False ctx2
          | Some sess \<Rightarrow>
              andThen (call_findAccount w (field sess ''accountId'') ctx2) (\<lambda>found ctx3.
                case found of
                  None \<Rightarrow> (Inl TypeError, ctx3)
                | Some acct \<Rightarrow>
                    andThen (call_claims w acct ''prompt'' ''email'' [(''email'', JNull)] [] ctx3)
                      (\<lambda>cl ctx4.
                         case debug_locals w d ctx4 of (dbg, ctx5) \<Rightarrow>
                           call_render w ''select_account''
                             ([(''client'', client), (''uid'', JStr (uid d)),
                               (''email'', field cl ''email''),
                               (''details'', JObj (details (prompt d))),
                               (''params'', JObj (params d)),
                               (''title'', JStr ''Sign-in'')] @ dbg) ctx5)))
       else if name (prompt d) = ''login'' then
         (case debug_locals w d ctx2 of (dbg, ctx3) \<Rightarrow>
            call_render w ''login''
              ([(''client'', client), (''uid'', JStr (uid d)),
                (''details'', JObj (details (prompt d))),
                (''params'', JObj (params d)),
                (''title'', JStr ''Sign-in''),
                (''google'', google w)] @ dbg) ctx3)
       else if name (prompt d) = ''consent'' then
         (case debug_locals w d ctx2 of (dbg, ctx3) \<Rightarrow>
            call_render w ''interaction''
              ([(''client'', client), (''uid'', JStr (uid d)),
                (''details'', JObj (details (prompt d))),
                (''params'', JObj (params d)),
                (''title'', JStr ''Authorize'')] @ dbg) ctx3)
       else call_next w ctx2))"

text \<open>\<open>GET /interaction/callback/google\<close>\<close>

definition get_callback_google :: "world \<Rightarrow> request \<Rightarrow> state \<Rightarrow> unit outcome" where
  "get_callback_google w rq ctx =
     call_render w ''repost'' [(''provider'', JStr ''google''), (''layout'', JBool False)] ctx"

text \<open>
  The result of a credential or federated lookup:
  \<open>account != null ? { select_account: {}, login: { account: account.accountId } } : {}\<close>.
\<close>

definition login_result :: "account option \<Rightarrow> jsval" where
  "login_result found =
     (case found of
        Some acct \<Rightarrow>
          JObj [(''select_account'', JObj []),
                (''login'', JObj [(''account'', JStr (accountId acct))])]
      | None \<Rightarrow> JObj [])"

text \<open>\<open>POST /interaction/:uid/login\<close>\<close>

definition post_login :: "world \<Rightarrow> request \<Rightarrow> state \<Rightarrow> unit outcome" where
  "post_login w rq ctx =
     andThen (call_interactionDetails w ctx) (\<lambda>d ctx1.
     andThen (assert_equal (JStr (name (prompt d))) (JStr ''login'') ctx1) (\<lambda>_ ctx2.
     andThen (call_findByLogin w (field (body rq) ''login'') ctx2) (\<lambda>found ctx3.
       call_interactionFinished w (login_result found) False ctx3)))"

text \<open>\<open>POST /interaction/:uid/federated\<close>\<close>

definition post_federated :: "world \<Rightarrow> request \<Rightarrow> state \<Rightarrow> unit outcome" where
  "post_federated w rq ctx =
     andThen (call_interactionDetails w ctx) (\<lambda>d ctx1.
     andThen (assert_equal (JStr (name (prompt d))) (JStr ''login'') ctx1) (\<lambda>_ ctx2.
       let pth = ''/interaction/'' @ params_uid rq @ ''/federated'';
           ctx3 = emit CallbackParams ctx2
       in
       if field (body rq) ''provider'' = JStr ''google'' then
         if callbackParams w \<noteq> [] then
           (case cookies_get rq ''google.state'' ctx3 of (st, ctx4) \<Rightarrow>
            andThen (cookies_set w ''google.state'' [] \<lparr>path = pth, sameSite = None\<rparr> ctx4)
              (\<lambda>_ ctx5.
            case cookies_get rq ''google.nonce'' ctx5 of (nonce, ctx6) \<Rightarrow>
            andThen (cookies_set w ''google.nonce'' [] \<lparr>path = pth, sameSite = None\<rparr> ctx6)
              (\<lambda>_ ctx7.
            andThen (call_callback w (callbackParams w) st nonce ''id_token'' ctx7) (\<lambda>ts ctx8.
            andThen (call_tokenset_claims ts ctx8) (\<lambda>cl ctx9.
            andThen (call_findByFederated w ''google'' cl ctx9) (\<lambda>found ctx10.
              call_interactionFinished w (login_result found) False ctx10))))))
         else
           (case randomBytes w 32 ctx3 of (b1, ctx4) \<Rightarrow>
            let st = params_uid rq @ ''|'' @ toString_hex b1 in
            case randomBytes w 32 ctx4 of (b2, ctx5) \<Rightarrow>
            let nonce = toString_hex b2 in
            andThen
              (cookies_set w ''google.state'' st \<lparr>path = pth, sameSite = Some ''strict''\<rparr> ctx5)
              (\<lambda>_ ctx6.
            andThen
              (cookies_set w ''google.nonce'' nonce \<lparr>path = pth, sameSite = Some ''strict''\<rparr> ctx6)
              (\<lambda>_ ctx7.
               redirect w (authorizationUrl w st nonce ''openid email profile'')
                 (emit (AuthorizationUrl st nonce ''openid email profile'') ctx7))))
       else (Inr (), ctx3)))"

text \<open>
  \<open>POST /interaction/:uid/continue\<close>. A truthy \<open>params.prompt\<close> that is not a string has
  no \<open>split\<close> method: the call throws a \<open>TypeError\<close>.
\<close>

definition switch_prompt :: "Interaction \<Rightarrow> state \<Rightarrow> Interaction outcome" where
  "switch_prompt interaction ctx =
     (if truthy (field (params interaction) ''prompt'') then
        (case field (params interaction) ''prompt'' of
           JStr p \<Rightarrow>
             (let prompts = split_on CHR '' '' p @ [''login'']
              in (Inr (interaction\<lparr>params :=
                         AList.update ''prompt'' (JStr (join '' '' prompts)) (params interaction)\<rparr>),
                  ctx))
         | _ \<Rightarrow> (Inl TypeError, ctx))
      else
        (Inr (interaction\<lparr>params :=
                AList.update ''prompt'' (JStr ''logout'') (params interaction)\<rparr>), ctx))"

definition post_continue :: "world \<Rightarrow> request \<Rightarrow> state \<Rightarrow> unit outcome" where
  "post_continue w rq ctx =
     andThen (call_interactionDetails w ctx) (\<lambda>interaction ctx1.
     andThen (assert_equal (JStr (name (prompt interaction))) (JStr ''select_account'') ctx1)
       (\<lambda>_ ctx2.
     andThen
       (if truthy (field (body rq) ''switch'') then
          andThen (switch_prompt interaction ctx2) (\<lambda>interaction1 ctx3.
            call_save w interaction1 ctx3)
        else (Inr (), ctx2))
       (\<lambda>_ ctx4.
          call_interactionFinished w (JObj [(''select_account'', JObj [])]) False ctx4)))"

text \<open>\<open>POST /interaction/:uid/confirm\<close>\<close>

definition consent_result :: jsval where
  "consent_result =
     JObj [(''consent'',
            JObj [(''rejectedScopes'', JArr []), (''rejectedClaims'', JArr []),
                  (''replace'', JBool False)])]"

definition post_confirm :: "world \<Rightarrow> request \<Rightarrow> state \<Rightarrow> unit outcome" where
  "post_confirm w rq ctx =
     andThen (call_interactionDetails w ctx) (\<lambda>d ctx1.
     andThen (assert_equal (JStr (name (prompt d))) (JStr ''consent'') ctx1) (\<lambda>_ ctx2.
       call_interactionFinished w consent_result True ctx2))"

text \<open>\<open>GET /interaction/:uid/abort\<close>\<close>

definition get_abort :: "world \<Rightarrow> request \<Rightarrow> state \<Rightarrow> unit outcome" where
  "get_abort w rq ctx =
     call_interactionFinished w
       (JObj [(''error'', JStr ''access_denied''),
              (''error_description'', JStr ''End-User aborted interaction'')])
       False ctx"

section \<open>The router\<close>

datatype route =
    GetInteraction
  | GetCallbackGoogle
  | PostLogin
  | PostFederated
  | PostContinue
  | PostConfirm
  | GetAbort

fun handler :: "route \<Rightarrow> world \<Rightarrow> request \<Rightarrow> state \<Rightarrow> unit outcome" where
  "handler GetInteraction = get_interaction"
| "handler GetCallbackGoogle = get_callback_google"
| "handler PostLogin = post_login"
| "handler PostFederated = post_federated"
| "handler PostContinue = post_continue"
| "handler PostConfirm = post_confirm"
| "handler GetAbort = get_abort"

text \<open>Every route runs behind the middleware registered with \<open>router.use\<close>.\<close>

definition router :: "route \<Rightarrow> world \<Rightarrow> request \<Rightarrow> state \<Rightarrow> unit outcome" where
  "router r w rq ctx = middleware (handler r w rq) ctx"

text \<open>
  The calls a run added to the trace, and the resolutions among them: the arguments of
  each \<open>interactionFinished\<close> call, in order.
\<close>

definition events_of :: "state \<Rightarrow> 'a outcome \<Rightarrow> event list" where
  "events_of ctx out = drop (length (trace ctx)) (trace (snd out))"

fun resolutions :: "event list \<Rightarrow> (jsval \<times> bool) list" where
  "resolutions [] = []"
| "resolutions (InteractionFinished result m # es) = (result, m) # resolutions es"
| "resolutions (e # es) = resolutions es"

fun renders :: "event list \<Rightarrow> (string \<times> obj) list" where
  "renders [] = []"
| "renders (Render view locals # es) = (view, locals) # renders es"
| "renders (e # es) = renders es"

section \<open>Observations used in the statements\<close>

text \<open>The 32 bytes \<open>crypto.randomBytes(32)\<close> returns when \<open>k\<close> bytes have been consumed.\<close>

definition draw :: "world \<Rightarrow> nat \<Rightarrow> 8 word list" where
  "draw w k = map (entropy w) [k ..< k + 32]"




definition completion :: "world \<Rightarrow> request \<Rightarrow> bool" where
  "completion w rq \<longleftrightarrow>
     (case interactionDetails w of
        Inl e \<Rightarrow> False
      | Inr d \<Rightarrow> name (prompt d) = ''login'') \<and>
     field (body rq) ''provider'' = JStr ''google'' \<and> callbackParams w \<noteq> []"

text \<open>
  What the completion branch does once the token exchange has been called: it stops at the
  first call that throws.
\<close>

definition completion_tail :: "world \<Rightarrow> request \<Rightarrow> event list" where
  "completion_tail w rq =
     (case callback w (callbackParams w) (cookies rq ''google.state'') (cookies rq ''google.nonce'')
             ''id_token'' of
        Inl e \<Rightarrow> []
      | Inr ts \<Rightarrow>
          TokensetClaims #
          (case id_claims ts of
             Inl e \<Rightarrow> []
           | Inr cl \<Rightarrow>
               FindByFederated ''google'' cl (findByFederated w ''google'' cl) #
               (case findByFederated w ''google'' cl of
                  Inl e \<Rightarrow> []
                | Inr found \<Rightarrow> [InteractionFinished (login_result found) False])))"


text \<open>
  The tags an HTML parser finds in a string: the text between each \<open><\<close> and the next
  \<open>>\<close>. The serializer's own tags are \<open><strong>\<close>, \<open></strong>\<close> and \<open><br/>\<close>.
\<close>

fun scan :: "string option \<Rightarrow> string \<Rightarrow> string list" where
  "scan None [] = []"
| "scan (Some t) [] = []"
| "scan None (c # cs) = (if c = CHR ''<'' then scan (Some []) cs else scan None cs)"
| "scan (Some t) (c # cs) = (if c = CHR ''>'' then t # scan None cs else scan (Some (t @ [c])) cs)"

definition tags :: "string \<Rightarrow> string list" where
  "tags s = scan None s"

text \<open>
  The order in which \<open>Object.entries\<close> yields the keys of an ordinary object: no key
  twice, the array indices first and ascending. A pair of the record reaches the output
  when its value is not empty and its key is not \<open>__proto__\<close>.
\<close>

definition entries_order :: "string list \<Rightarrow> bool" where
  "entries_order ks \<longleftrightarrow>
     distinct ks \<and>
     sorted_wrt (\<lambda>a b. array_index b \<longrightarrow> array_index a \<and> decimal a < decimal b) ks"

definition emitted :: "string \<times> jsval \<Rightarrow> bool" where
  "emitted kv \<longleftrightarrow> \<not> isEmpty (snd kv) \<and> fst kv \<noteq> ''__proto__''"

text \<open>
  One pair of the serializer's output: the emphasised key, the separator, and the inspected
  value, emphasised when it is in the key set.
\<close>

definition pair_text :: "(jsval \<Rightarrow> string) \<Rightarrow> string set \<Rightarrow> string \<times> jsval \<Rightarrow> string" where
  "pair_text ins K kv =
     ''<strong>'' @ fst kv @ ''</strong>: '' @
     (if ins (snd kv) \<in> K then ''<strong>'' @ ins (snd kv) @ ''</strong>'' else ins (snd kv))"

section \<open>Example collaborators\<close>

text \<open>
  A world, a request and a fresh context for the examples: the account store knows the login
  \<open>alice\<close> as account \<open>u1\<close>, the engine answers every call, and the token exchange of
  \<open>example_world\<close> fails while that of \<open>example_exchange\<close> succeeds. In
  \<open>example_failed_exchange\<close> a callback arrives and the exchange throws; in
  \<open>example_no_prompt\<close> the pending request has no \<open>prompt\<close> parameter; in
  \<open>example_expired\<close> the engine no longer knows the interaction. The route's \<open>uid\<close> is
  \<open>abc\<close> in \<open>example_request\<close>; in \<open>example_odd_request\<close> it holds a line feed.
\<close>

text \<open>
  The cookie jar of the examples is Koa's (the \<open>cookies\<close> package): the name, a non-empty
  value and a non-empty path must be header field content, that is, made of the tab, the
  printable ASCII characters and the code units from 128 to 255; anything else is refused
  with a \<open>TypeError\<close>.
\<close>

definition field_content :: "string \<Rightarrow> bool" where
  "field_content s \<longleftrightarrow>
     s \<noteq> [] \<and>
     list_all (\<lambda>c. of_char c = (9 :: nat) \<or> 32 \<le> (of_char c :: nat) \<and> (of_char c :: nat) \<le> 126 \<or>
                  128 \<le> (of_char c :: nat)) s"

definition koa_cookie_jar :: "string \<Rightarrow> string \<Rightarrow> cookie_opts \<Rightarrow> error + unit" where
  "koa_cookie_jar nm val opts =
     (if field_content nm \<and> (val = [] \<or> field_content val) \<and>
         (path opts = [] \<or> field_content (path opts))
      then Inr () else Inl TypeError)"

definition example_interaction :: "string \<Rightarrow> Interaction" where
  "example_interaction nm =
     \<lparr>uid = ''abc'', prompt = \<lparr>name = nm, reasons = [], details = []\<rparr>,
      params = [(''client_id'', JStr ''foo''), (''prompt'', JStr ''consent'')], session = None\<rparr>"

definition example_world :: "string \<Rightarrow> world" where
  "example_world nm =
     \<lparr>inspect = inspect_plain,
      entropy = (\<lambda>n. of_nat n),
      interactionDetails = Inr (example_interaction nm),
      interactionFinished = (\<lambda>result m. Inr ()),
      Client_find = (\<lambda>cid. Inr (JObj [(''client_id'', cid)])),
      findAccount = (\<lambda>ident. Inr None),
      claims = (\<lambda>a use scope cl rejected. Inr [(''email'', JNull)]),
      findByLogin = (\<lambda>l. Inr (if l = JStr ''alice'' then Some \<lparr>accountId = ''u1''\<rparr> else None)),
      findByFederated = (\<lambda>p cl. Inr (Some \<lparr>accountId = ''u1''\<rparr>)),
      save = (\<lambda>ps. Inr ()),
      render = (\<lambda>view locals. Inr ()),
      downstream = Inr (),
      google = JObj [],
      callbackParams = [],
      callback = (\<lambda>ps st nonce rt. Inl (Thrown ''state mismatch'')),
      authorizationUrl = (\<lambda>st nonce scope. ''https://accounts.google.com/o/oauth2/v2/auth?state='' @ st),
      cookie_jar = koa_cookie_jar,
      redirect_location = (\<lambda>url. url),
      redirect_page = (\<lambda>url. (''text/plain; charset=utf-8'', ''Redirecting to '' @ url @ ''.''))\<rparr>"

definition example_request :: "obj \<Rightarrow> request" where
  "example_request b = \<lparr>params_uid = ''abc'', body = b, cookies = (\<lambda>nm. None)\<rparr>"


definition example_ctx :: state where
  "example_ctx =
     \<lparr>status = 404, ctype = [], response_body = [], headers = [], set_cookies = [],
      keys = {}, entropy_used = 0, trace = []\<rparr>"

definition example_exchange :: "world" where
  "example_exchange =
     (example_world ''login'')
       \<lparr>callbackParams := [(''id_token'', JStr ''eyJ'')],
        callback := (\<lambda>ps st nonce rt. Inr \<lparr>id_claims = Inr [(''sub'', JStr ''g1'')]\<rparr>)\<rparr>"


definition example_no_prompt :: "world" where
  "example_no_prompt =
     (example_world ''select_account'')
       \<lparr>interactionDetails :=
          Inr ((example_interaction ''select_account'')\<lparr>params := [(''client_id'', JStr ''foo'')]\<rparr>)\<rparr>"

definition example_expired :: "world" where
  "example_expired =
     (example_world ''login'')
       \<lparr>interactionDetails :=
          Inl (SessionNotFound 400 ''invalid_request'' ''interaction session not found'')\<rparr>"

section \<open>Properties of the debug serializer\<close>

lemma snd_reducer: "snd (reducer ins st kv) = insert (fst kv) (snd st)"
  by (cases st; cases kv) (simp add: reducer_def Let_def)

lemma reducer_keys: "snd (foldl (reducer ins) st ob) = snd st \<union> fst ` set ob"
  by (induction ob arbitrary: st) (auto simp: snd_reducer)

lemma update_fresh: "k \<notin> fst ` set acc \<Longrightarrow> AList.update k v acc = acc @ [(k, v)]"
  by (induction acc) auto

lemma insert_index_last:
  "\<forall>a \<in> fst ` set acc. array_index a \<and> decimal a < decimal k \<Longrightarrow>
   insert_index k v acc = acc @ [(k, v)]"
  by (induction acc) auto

lemma assign_last:
  assumes "k \<noteq> ''__proto__''" and "k \<notin> fst ` set acc"
    and "array_index k \<longrightarrow> (\<forall>a \<in> fst ` set acc. array_index a \<and> decimal a < decimal k)"
  shows "assign k v acc = acc @ [(k, v)]"
proof (cases "array_index k")
  case True
  from assms(2) have "map_of acc k = None" by (simp add: map_of_eq_None_iff)
  with True assms(1,3) show ?thesis by (simp add: assign_def insert_index_last)
next
  case False
  with assms(1,2) show ?thesis by (simp add: assign_def update_fresh)
qed

lemma reducer_step:
  "reducer ins (acc, K) kv =
     (if emitted kv then assign (fst kv) (ins (snd kv)) acc else acc, insert (fst kv) K)"
  by (cases kv) (simp add: reducer_def emitted_def assign_def Let_def)

lemma entries_order_Cons:
  "entries_order (k # ks) \<longleftrightarrow>
     k \<notin> set ks \<and> (\<forall>b \<in> set ks. array_index b \<longrightarrow> array_index k \<and> decimal k < decimal b) \<and>
     entries_order ks"
  by (auto simp: entries_order_def)

lemma reducer_acc:
  assumes "entries_order (map fst ob)"
    and "\<forall>a \<in> fst ` set acc. \<forall>b \<in> fst ` set ob.
           a \<noteq> b \<and> (array_index b \<longrightarrow> array_index a \<and> decimal a < decimal b)"
  shows "fst (foldl (reducer ins) (acc, K) ob) =
     acc @ map (\<lambda>kv. (fst kv, ins (snd kv))) (filter emitted ob)"
  using assms
proof (induction ob arbitrary: acc K)
  case Nil
  then show ?case by simp
next
  case (Cons kv ob)
  from Cons.prems(1) have fresh: "fst kv \<notin> fst ` set ob"
    and before: "\<forall>b \<in> fst ` set ob. array_index b \<longrightarrow> array_index (fst kv) \<and> decimal (fst kv) < decimal b"
    and rest: "entries_order (map fst ob)"
    by (simp_all add: entries_order_Cons)
  from Cons.prems(2) have inv: "\<forall>a \<in> fst ` set acc. \<forall>b \<in> fst ` set ob.
           a \<noteq> b \<and> (array_index b \<longrightarrow> array_index a \<and> decimal a < decimal b)"
    by simp
  show ?case
  proof (cases "emitted kv")
    case False
    with Cons.IH [OF rest inv, of "insert (fst kv) K"] show ?thesis
      by (simp add: reducer_step)
  next
    case True
    then have np: "fst kv \<noteq> ''__proto__''" by (simp add: emitted_def)
    from Cons.prems(2) have new: "fst kv \<notin> fst ` set acc"
      and last: "array_index (fst kv) \<longrightarrow>
        (\<forall>a \<in> fst ` set acc. array_index a \<and> decimal a < decimal (fst kv))"
      by auto
    have a: "assign (fst kv) (ins (snd kv)) acc = acc @ [(fst kv, ins (snd kv))]"
      using np new last by (rule assign_last)
    from inv fresh before
    have inv': "\<forall>a \<in> fst ` set (acc @ [(fst kv, ins (snd kv))]). \<forall>b \<in> fst ` set ob.
           a \<noteq> b \<and> (array_index b \<longrightarrow> array_index a \<and> decimal a < decimal b)"
      by auto
    from Cons.IH [OF rest inv', of "insert (fst kv) K"] True a show ?thesis
      by (simp add: reducer_step)
  qed
qed

lemma stringify_loop_nonempty:
  "fs \<noteq> [] \<Longrightarrow>
   stringify_loop enc sep eq fs xs =
     fs @ concat (map (\<lambda>kv. sep @ enc (fst kv) @ eq @ enc (snd kv)) xs)"
  by (induction xs arbitrary: fs) (auto simp: Let_def)

lemma join_concat: "join sep (x # xs) = x @ concat (map (\<lambda>y. sep @ y) xs)"
  by (induction xs arbitrary: x) (auto)

lemma stringify_join:
  "eq \<noteq> [] \<Longrightarrow> stringify xs sep eq enc = join sep (map (\<lambda>kv. enc (fst kv) @ eq @ enc (snd kv)) xs)"
proof (cases xs)
  case Nil
  then show ?thesis by (simp add: stringify_def)
next
  case (Cons kv rest)
  assume "eq \<noteq> []"
  then show ?thesis
    unfolding stringify_def Cons
    by (cases kv) (simp add: stringify_loop_nonempty join_concat comp_def Let_def)
qed

lemma sublist_in_append: "sublist x ys \<Longrightarrow> sublist x (ps @ ys)"
  unfolding sublist_def by (metis append.assoc)

lemma sublist_join: "x \<in> set xs \<Longrightarrow> sublist x (join sep xs)"
proof (induction sep xs rule: join.induct)
  case (1 sep)
  then show ?case by simp
next
  case (2 sep y)
  then show ?case by simp
next
  case (3 sep y z zs)
  show ?case
  proof (cases "x = y")
    case True
    then show ?thesis by (simp add: sublist_append_rightI)
  next
    case False
    with 3 have "sublist x (join sep (z # zs))" by simp
    then have "sublist x ((y @ sep) @ join sep (z # zs))" by (rule sublist_in_append)
    then show ?thesis by simp
  qed
qed

lemma debug_keys: "snd (debug ins r K) = K \<union> fst ` set r"
  using reducer_keys [of ins "([], K)" r]
  by (cases "foldl (reducer ins) ([], K) r") (simp add: debug_def)

lemma debug_output:
  assumes "entries_order (map fst r)"
  shows "fst (debug ins r K) =
    join ''<br/>''
      (map (\<lambda>kv. encodeURIComponent (K \<union> fst ` set r) (fst kv) @ '': '' @
                  encodeURIComponent (K \<union> fst ` set r) (ins (snd kv)))
           (filter emitted r))"
proof -
  obtain acc K1 where f: "foldl (reducer ins) ([], K) r = (acc, K1)"
    by (cases "foldl (reducer ins) ([], K) r")
  from reducer_keys [of ins "([], K)" r] f have K1: "K1 = K \<union> fst ` set r" by simp
  from reducer_acc [OF assms, of "[]" ins K] f
  have acc: "acc = map (\<lambda>kv. (fst kv, ins (snd kv))) (filter emitted r)"
    by simp
  show ?thesis
    by (simp add: debug_def f K1 acc stringify_join comp_def)
qed

lemma entries_order_single: "entries_order [k]"
  by (simp add: entries_order_def)

text \<open>
  Claim C10. The serializer is not a function of its argument alone. There are records
  \<open>r1\<close>, \<open>r2\<close> such that serializing \<open>r1\<close> first (its output is empty: its only value is
  empty and so omitted) changes the output for \<open>r2\<close>. The reason: after a call the
  module-level set holds every key of the record, whatever its value; and a non-empty value
  that is written (its key is an ordinary one, not \<open>__proto__\<close>) and whose inspected string
  is in the set as the call finds it is written between \<open><strong>\<close> and \<open></strong>\<close>.
\<close>

theorem debug_depends_on_earlier_calls:
  "(\<exists>r1 r2. entries_order (map fst r1) \<and> entries_order (map fst r2) \<and>
       fst (debug ins r1 {}) = [] \<and>
       fst (debug ins r2 (snd (debug ins r1 {}))) \<noteq> fst (debug ins r2 {}))
   \<and> snd (debug ins r K) = K \<union> fst ` set r
   \<and> (entries_order (map fst r) \<longrightarrow> (k, v) \<in> set r \<longrightarrow> \<not> isEmpty v \<longrightarrow>
        k \<noteq> ''__proto__'' \<longrightarrow> ins v \<in> K \<longrightarrow>
        sublist ('': <strong>'' @ ins v @ ''</strong>'') (fst (debug ins r K)))"
proof (intro conjI impI)
  let ?s = "ins (JStr ''x'')"
  let ?r1 = "[(?s, JStr [])]"
  let ?r2 = "[(CHR ''k'' # ?s, JStr ''x'')]"
  have ne: "CHR ''k'' # ?s \<noteq> ?s" by simp
  have o: "entries_order (map fst ?r1)" "entries_order (map fst ?r2)"
    by (simp_all add: entries_order_single)
  have "fst (debug ins ?r1 {}) = []"
    by (simp add: debug_output [OF o(1)] emitted_def)
  moreover have "fst (debug ins ?r2 (snd (debug ins ?r1 {}))) \<noteq> fst (debug ins ?r2 {})"
    using ne by (simp add: debug_output [OF o(2)] debug_keys encodeURIComponent_def emitted_def)
  ultimately show "\<exists>r1 r2. entries_order (map fst r1) \<and> entries_order (map fst r2) \<and>
       fst (debug ins r1 {}) = [] \<and>
       fst (debug ins r2 (snd (debug ins r1 {}))) \<noteq> fst (debug ins r2 {})"
    using o by blast
next
  show "snd (debug ins r K) = K \<union> fst ` set r" by (rule debug_keys)
next
  assume d: "entries_order (map fst r)" and m: "(k, v) \<in> set r" and ne: "\<not> isEmpty v"
    and np: "k \<noteq> ''__proto__''" and inK: "ins v \<in> K"
  let ?K = "K \<union> fst ` set r"
  let ?f = "\<lambda>kv. encodeURIComponent ?K (fst kv) @ '': '' @ encodeURIComponent ?K (ins (snd kv))"
  from m ne np have "?f (k, v) \<in> set (map ?f (filter emitted r))"
    by (force simp: emitted_def)
  then have "sublist (?f (k, v)) (fst (debug ins r K))"
    unfolding debug_output [OF d] by (rule sublist_join)
  moreover have "sublist ('': <strong>'' @ ins v @ ''</strong>'')
      (encodeURIComponent ?K k @ ('': <strong>'' @ ins v @ ''</strong>'') @ [])"
    by (rule sublist_appendI)
  with inK have "sublist ('': <strong>'' @ ins v @ ''</strong>'') (?f (k, v))"
    by (simp add: encodeURIComponent_def)
  ultimately show "sublist ('': <strong>'' @ ins v @ ''</strong>'') (fst (debug ins r K))"
    by (rule sublist_order.order.trans [rotated])
qed

theorem debug_depends_on_earlier_calls_witness:
  "entries_order (map fst [(''a'', JStr ''x'')]) \<and> (''a'', JStr ''x'') \<in> set [(''a'', JStr ''x'')]
   \<and> \<not> isEmpty (JStr ''x'') \<and> ''a'' \<noteq> ''__proto__''
   \<and> inspect_plain (JStr ''x'') \<in> {inspect_plain (JStr ''x'')}
   \<and> sublist ('': <strong>'' @ inspect_plain (JStr ''x'') @ ''</strong>'')
        (fst (debug inspect_plain [(''a'', JStr ''x'')] {inspect_plain (JStr ''x'')}))"
proof -
  have h: "entries_order (map fst [(''a'', JStr ''x'')])" "(''a'', JStr ''x'') \<in> set [(''a'', JStr ''x'')]"
    "\<not> isEmpty (JStr ''x'')" "''a'' \<noteq> ''__proto__''"
    "inspect_plain (JStr ''x'') \<in> {inspect_plain (JStr ''x'')}"
    by (simp_all add: entries_order_single)
  from debug_depends_on_earlier_calls
    [of inspect_plain "[(''a'', JStr ''x'')]" "{inspect_plain (JStr ''x'')}" "''a''" "JStr ''x''"] h
  show ?thesis by blast
qed

subsection \<open>The output, pair by pair\<close>

lemma scan_text: "CHR ''<'' \<notin> set t \<Longrightarrow> scan None (t @ rest) = scan None rest"
  by (induction t) auto

lemma scan_strong_open: "scan None (''<strong>'' @ rest) = ''strong'' # scan None rest"
  by simp

lemma scan_strong_close: "scan None (''</strong>'' @ rest) = ''/strong'' # scan None rest"
  by simp

lemma scan_br: "scan None (''<br/>'' @ rest) = ''br/'' # scan None rest"
  by simp

lemma scan_pair_text:
  assumes "CHR ''<'' \<notin> set (fst kv)" and "CHR ''<'' \<notin> set (ins (snd kv))"
  shows "set (scan None (pair_text ins K kv @ rest)) \<subseteq>
           {''br/'', ''strong'', ''/strong''} \<union> set (scan None rest)"
proof -
  have 1: "scan None (pair_text ins K kv @ rest) =
      ''strong'' # scan None (fst kv @ ''</strong>: '' @
     (if ins (snd kv) \<in> K then ''<strong>'' @ ins (snd kv) @ ''</strong>'' else ins (snd kv)) @ rest)"
    by (simp add: pair_text_def)
  have 2: "scan None (fst kv @ ''</strong>: '' @
     (if ins (snd kv) \<in> K then ''<strong>'' @ ins (snd kv) @ ''</strong>'' else ins (snd kv)) @ rest) =
     ''/strong'' # scan None (
     (if ins (snd kv) \<in> K then ''<strong>'' @ ins (snd kv) @ ''</strong>'' else ins (snd kv)) @ rest)"
    unfolding scan_text [OF assms(1)] by simp
  have 3: "set (scan None (
     (if ins (snd kv) \<in> K then ''<strong>'' @ ins (snd kv) @ ''</strong>'' else ins (snd kv)) @ rest))
     \<subseteq> {''br/'', ''strong'', ''/strong''} \<union> set (scan None rest)"
  proof (cases "ins (snd kv) \<in> K")
    case True
    have "scan None ((''<strong>'' @ ins (snd kv) @ ''</strong>'') @ rest) =
        ''strong'' # scan None (ins (snd kv) @ ''</strong>'' @ rest)"
      by simp
    also have "\<dots> = ''strong'' # scan None (''</strong>'' @ rest)"
      unfolding scan_text [OF assms(2)] ..
    also have "\<dots> = ''strong'' # ''/strong'' # scan None rest"
      by simp
    finally show ?thesis using True by auto
  next
    case False
    then show ?thesis using scan_text [OF assms(2), of rest] by auto
  qed
  from 1 2 3 show ?thesis by auto
qed


lemma scan_pairs_tail:
  assumes "\<forall>kv \<in> set xs. CHR ''<'' \<notin> set (fst kv) \<and> CHR ''<'' \<notin> set (ins (snd kv))"
  shows "set (scan None (concat (map (\<lambda>y. ''<br/>'' @ y) (map (pair_text ins K) xs)))) \<subseteq>
           {''br/'', ''strong'', ''/strong''}"
  using assms
proof (induction xs)
  case Nil
  show ?case by simp
next
  case (Cons kv xs)
  let ?rest = "concat (map (\<lambda>y. ''<br/>'' @ y) (map (pair_text ins K) xs))"
  from Cons have ih: "set (scan None ?rest) \<subseteq> {''br/'', ''strong'', ''/strong''}" by simp
  from Cons.prems have "CHR ''<'' \<notin> set (fst kv)" and "CHR ''<'' \<notin> set (ins (snd kv))"
    by simp_all
  then have "set (scan None (pair_text ins K kv @ ?rest)) \<subseteq>
      {''br/'', ''strong'', ''/strong''} \<union> set (scan None ?rest)"
    by (rule scan_pair_text)
  with ih have "set (scan None (pair_text ins K kv @ ?rest)) \<subseteq> {''br/'', ''strong'', ''/strong''}"
    by blast
  moreover have "scan None (concat (map (\<lambda>y. ''<br/>'' @ y) (map (pair_text ins K) (kv # xs)))) =
      ''br/'' # scan None (pair_text ins K kv @ ?rest)"
    by simp
  ultimately show ?case by simp
qed

lemma scan_join_pairs:
  assumes "\<forall>kv \<in> set xs. CHR ''<'' \<notin> set (fst kv) \<and> CHR ''<'' \<notin> set (ins (snd kv))"
  shows "set (tags (join ''<br/>'' (map (pair_text ins K) xs))) \<subseteq> {''br/'', ''strong'', ''/strong''}"
proof (cases xs)
  case Nil
  then show ?thesis by (simp add: tags_def)
next
  case (Cons kv ys)
  let ?rest = "concat (map (\<lambda>y. ''<br/>'' @ y) (map (pair_text ins K) ys))"
  from assms Cons have "CHR ''<'' \<notin> set (fst kv)" and "CHR ''<'' \<notin> set (ins (snd kv))"
    by simp_all
  then have "set (scan None (pair_text ins K kv @ ?rest)) \<subseteq>
      {''br/'', ''strong'', ''/strong''} \<union> set (scan None ?rest)"
    by (rule scan_pair_text)
  moreover from assms Cons have "set (scan None ?rest) \<subseteq> {''br/'', ''strong'', ''/strong''}"
    by (intro scan_pairs_tail) simp
  ultimately have "set (scan None (pair_text ins K kv @ ?rest)) \<subseteq> {''br/'', ''strong'', ''/strong''}"
    by blast
  then show ?thesis
    unfolding Cons tags_def list.map join_concat .
qed

lemma sublist_pair_text:
  "sublist (fst kv) (pair_text ins K kv)" "sublist (ins (snd kv)) (pair_text ins K kv)"
proof -
  show "sublist (fst kv) (pair_text ins K kv)"
    unfolding pair_text_def by (rule sublist_appendI)
  have "sublist (ins (snd kv))
     (if ins (snd kv) \<in> K then ''<strong>'' @ ins (snd kv) @ ''</strong>'' else ins (snd kv))"
    by (cases "ins (snd kv) \<in> K") (simp_all only: if_True if_False sublist_appendI sublist_order.order.refl)
  then have "sublist (ins (snd kv))
     ((''<strong>'' @ fst kv @ ''</strong>: '') @
      (if ins (snd kv) \<in> K then ''<strong>'' @ ins (snd kv) @ ''</strong>'' else ins (snd kv)))"
    by (rule sublist_in_append)
  then show "sublist (ins (snd kv)) (pair_text ins K kv)"
    by (simp add: pair_text_def)
qed


lemma debug_output_pairs:
  assumes "entries_order (map fst r)"
  shows "fst (debug ins r K) =
    join ''<br/>'' (map (pair_text ins (K \<union> fst ` set r)) (filter emitted r))"
proof -
  have eq: "map (\<lambda>kv. encodeURIComponent (K \<union> fst ` set r) (fst kv) @ '': '' @
                  encodeURIComponent (K \<union> fst ` set r) (ins (snd kv)))
           (filter emitted r) =
        map (pair_text ins (K \<union> fst ` set r)) (filter emitted r)"
    by (rule map_cong) (auto simp: encodeURIComponent_def pair_text_def)
  show ?thesis
    unfolding debug_output [OF assms] eq by (rule refl)
qed



lemma example_session_order:
  "entries_order (map fst [(''uid'', JStr ''abc''), (''accountId'', JStr ''u1'')])"
  by (simp add: entries_order_def array_index_def is_digit_def decimal_def)




text \<open>
  Claim C9, as amended. The serializer escapes nothing: every key that is written (its
  value is non-empty and it is not \<open>__proto__\<close>), and the inspected string of its value,
  stands verbatim in the output. The tags of the output are the serializer's own when no
  such key and no such inspected string contains \<open><\<close>.
\<close>

theorem debug_serializer_copies_verbatim:
  "entries_order (map fst r) \<longrightarrow>
     (\<forall>kv \<in> set r. \<not> isEmpty (snd kv) \<and> fst kv \<noteq> ''__proto__'' \<longrightarrow>
        sublist (fst kv) (fst (debug ins r K)) \<and> sublist (ins (snd kv)) (fst (debug ins r K)))
     \<and> ((\<forall>kv \<in> set r. \<not> isEmpty (snd kv) \<and> fst kv \<noteq> ''__proto__'' \<longrightarrow>
            CHR ''<'' \<notin> set (fst kv) \<and> CHR ''<'' \<notin> set (ins (snd kv))) \<longrightarrow>
         set (tags (fst (debug ins r K))) \<subseteq> {''br/'', ''strong'', ''/strong''})"
proof (intro impI conjI ballI)
  fix kv
  assume d: "entries_order (map fst r)" and m: "kv \<in> set r"
    and ne: "\<not> isEmpty (snd kv) \<and> fst kv \<noteq> ''__proto__''"
  let ?K = "K \<union> fst ` set r"
  from m ne have "pair_text ins ?K kv \<in> set (map (pair_text ins ?K) (filter emitted r))"
    by (simp add: emitted_def)
  then have s: "sublist (pair_text ins ?K kv) (fst (debug ins r K))"
    unfolding debug_output_pairs [OF d] by (rule sublist_join)
  from sublist_pair_text(1) s show "sublist (fst kv) (fst (debug ins r K))"
    by (rule sublist_order.order.trans)
  from sublist_pair_text(2) s show "sublist (ins (snd kv)) (fst (debug ins r K))"
    by (rule sublist_order.order.trans)
next
  assume d: "entries_order (map fst r)"
    and "\<forall>kv \<in> set r. \<not> isEmpty (snd kv) \<and> fst kv \<noteq> ''__proto__'' \<longrightarrow>
            CHR ''<'' \<notin> set (fst kv) \<and> CHR ''<'' \<notin> set (ins (snd kv))"
  then have "\<forall>kv \<in> set (filter emitted r).
      CHR ''<'' \<notin> set (fst kv) \<and> CHR ''<'' \<notin> set (ins (snd kv))"
    by (simp add: emitted_def)
  then show "set (tags (fst (debug ins r K))) \<subseteq> {''br/'', ''strong'', ''/strong''}"
    unfolding debug_output_pairs [OF d] by (rule scan_join_pairs)
qed

theorem debug_serializer_copies_verbatim_witness:
  "entries_order (map fst [(''uid'', JStr ''abc''), (''accountId'', JStr ''u1'')])
   \<and> (''uid'', JStr ''abc'') \<in> set [(''uid'', JStr ''abc''), (''accountId'', JStr ''u1'')]
   \<and> \<not> isEmpty (snd (''uid'', JStr ''abc'')) \<and> fst (''uid'', JStr ''abc'') \<noteq> ''__proto__''
   \<and> sublist ''uid''
        (fst (debug inspect_plain [(''uid'', JStr ''abc''), (''accountId'', JStr ''u1'')] {}))
   \<and> sublist (inspect_plain (JStr ''abc''))
        (fst (debug inspect_plain [(''uid'', JStr ''abc''), (''accountId'', JStr ''u1'')] {}))
   \<and> set (tags (fst (debug inspect_plain [(''uid'', JStr ''abc''), (''accountId'', JStr ''u1'')] {})))
        \<subseteq> {''br/'', ''strong'', ''/strong''}"
proof -
  let ?r = "[(''uid'', JStr ''abc''), (''accountId'', JStr ''u1'')]"
  note d = example_session_order
  have m: "(''uid'', JStr ''abc'') \<in> set ?r"
    and ne: "\<not> isEmpty (snd (''uid'', JStr ''abc''))" "fst (''uid'', JStr ''abc'') \<noteq> ''__proto__''"
    by simp_all
  have c: "\<forall>kv \<in> set ?r. \<not> isEmpty (snd kv) \<and> fst kv \<noteq> ''__proto__'' \<longrightarrow>
            CHR ''<'' \<notin> set (fst kv) \<and> CHR ''<'' \<notin> set (inspect_plain (snd kv))"
    by simp
  from debug_serializer_copies_verbatim [of ?r inspect_plain "{}"] d m ne
  have 1: "sublist ''uid'' (fst (debug inspect_plain ?r {}))"
    and 2: "sublist (inspect_plain (JStr ''abc'')) (fst (debug inspect_plain ?r {}))"
    by force+
  from debug_serializer_copies_verbatim [of ?r inspect_plain "{}"] d c
  have 3: "set (tags (fst (debug inspect_plain ?r {}))) \<subseteq> {''br/'', ''strong'', ''/strong''}"
    by blast
  from d m ne 1 2 3 show ?thesis by blast
qed

text \<open>
  Claim C9 as stated fails: a key \<open><script>alert(1)</script>\<close> and a value
  \<open><img src=x>\<close> reach the output as markup.
\<close>

theorem debug_output_carries_markup:
  "fst (debug inspect_plain [(''<script>alert(1)</script>'', JStr ''<img src=x>'')] {}) =
     ''<strong><script>alert(1)</script></strong>: '' @ inspect_plain (JStr ''<img src=x>'')
   \<and> tags (fst (debug inspect_plain [(''<script>alert(1)</script>'', JStr ''<img src=x>'')] {})) =
       [''strong'', ''script'', ''/script'', ''/strong'', ''img src=x'']
   \<and> \<not> set (tags (fst (debug inspect_plain
              [(''<script>alert(1)</script>'', JStr ''<img src=x>'')] {})))
         \<subseteq> {''br/'', ''strong'', ''/strong''}"
proof -
  have o: "entries_order (map fst [(''<script>alert(1)</script>'', JStr ''<img src=x>'')])"
    by (simp add: entries_order_single)
  show ?thesis
    by (simp add: debug_output [OF o] encodeURIComponent_def tags_def emitted_def)
qed

section \<open>Properties of the handlers\<close>

lemmas call_defs =
  call_interactionDetails_def call_interactionFinished_def call_Client_find_def
  call_findAccount_def call_claims_def call_findByLogin_def call_findByFederated_def
  call_save_def call_render_def call_next_def call_callback_def call_tokenset_claims_def
  assert_equal_def cookies_get_def cookies_set_def redirect_def randomBytes_def

lemma resolutions_append: "resolutions (xs @ ys) = resolutions xs @ resolutions ys"
  by (induction xs rule: resolutions.induct) simp_all

lemma events_ofI: "trace (snd out) = trace c @ evs \<Longrightarrow> events_of c out = evs"
  by (simp add: events_of_def)

subsection \<open>login\<close>

lemma post_login_events:
  "events_of c (post_login w rq c) =
     InteractionDetails #
     (case interactionDetails w of
        Inl e \<Rightarrow> []
      | Inr d \<Rightarrow>
          if name (prompt d) \<noteq> ''login'' then []
          else FindByLogin (field (body rq) ''login'') (findByLogin w (field (body rq) ''login'')) #
               (case findByLogin w (field (body rq) ''login'') of
                  Inl e \<Rightarrow> []
                | Inr found \<Rightarrow> [InteractionFinished (login_result found) False]))"
proof (cases "interactionDetails w")
  case (Inl e)
  then show ?thesis
    by (simp add: post_login_def andThen_def call_defs emit_def events_of_def)
next
  case (Inr d)
  then show ?thesis
    by (cases "findByLogin w (field (body rq) ''login'')")
       (simp_all add: post_login_def andThen_def call_defs emit_def events_of_def)
qed

lemma post_login_outcome:
  "interactionDetails w = Inr d \<Longrightarrow> name (prompt d) = ''login'' \<Longrightarrow>
   findByLogin w (field (body rq) ''login'') = Inr found \<Longrightarrow>
   fst (post_login w rq c) = interactionFinished w (login_result found) False"
  by (simp add: post_login_def andThen_def call_defs)

lemma post_login_lookup:
  assumes "FindByLogin l (Inr found) \<in> set (events_of c (post_login w rq c))"
  shows "resolutions (events_of c (post_login w rq c)) = [(login_result found, False)]"
    and "fst (post_login w rq c) = interactionFinished w (login_result found) False"
proof -
  from assms obtain d where d: "interactionDetails w = Inr d"
    unfolding post_login_events by (cases "interactionDetails w") simp_all
  from assms d have nm: "name (prompt d) = ''login''"
    unfolding post_login_events by (simp split: if_splits)
  from assms d nm have r: "findByLogin w (field (body rq) ''login'') = Inr found"
    unfolding post_login_events
    by (cases "findByLogin w (field (body rq) ''login'')") simp_all
  from d nm r show "resolutions (events_of c (post_login w rq c)) = [(login_result found, False)]"
    unfolding post_login_events by simp
  from d nm r show "fst (post_login w rq c) = interactionFinished w (login_result found) False"
    by (rule post_login_outcome)
qed

lemma resolutions_post_login:
  "x \<in> set (resolutions (events_of c (post_login w rq c))) \<Longrightarrow> snd x = False"
  unfolding post_login_events
  by (auto split: sum.splits if_splits)

subsection \<open>federated\<close>

lemma post_federated_no_details:
  "interactionDetails w = Inl e \<Longrightarrow>
   post_federated w rq c = (Inl e, c\<lparr>trace := trace c @ [InteractionDetails]\<rparr>)"
  by (simp add: post_federated_def andThen_def call_interactionDetails_def emit_def)

lemma post_federated_wrong_prompt:
  "interactionDetails w = Inr d \<Longrightarrow> name (prompt d) \<noteq> ''login'' \<Longrightarrow>
   post_federated w rq c =
     (Inl (AssertionError (JStr (name (prompt d))) (JStr ''login'')),
      c\<lparr>trace := trace c @ [InteractionDetails]\<rparr>)"
  by (simp add: post_federated_def andThen_def call_interactionDetails_def assert_equal_def emit_def)

lemma post_federated_other_provider:
  "interactionDetails w = Inr d \<Longrightarrow> name (prompt d) = ''login'' \<Longrightarrow>
   field (body rq) ''provider'' \<noteq> JStr ''google'' \<Longrightarrow>
   post_federated w rq c = (Inr (), c\<lparr>trace := trace c @ [InteractionDetails, CallbackParams]\<rparr>)"
  by (simp add: post_federated_def andThen_def call_interactionDetails_def assert_equal_def emit_def)

text \<open>
  The completion branch, by what the cookie jar answers to the two clearing writes: it
  refuses the first, it accepts the first and refuses the second, it accepts both.
\<close>

lemma post_federated_completion_state_refused:
  assumes "interactionDetails w = Inr d" and "name (prompt d) = ''login''"
    and "field (body rq) ''provider'' = JStr ''google''" and "callbackParams w \<noteq> []"
    and "cookie_jar w ''google.state'' []
           \<lparr>path = ''/interaction/'' @ params_uid rq @ ''/federated'', sameSite = None\<rparr> = Inl e"
  shows "fst (post_federated w rq c) = Inl e"
    and "set_cookies (snd (post_federated w rq c)) = set_cookies c"
    and "trace (snd (post_federated w rq c)) = trace c @
          [InteractionDetails, CallbackParams,
           CookiesGet ''google.state'',
           CookiesSet ''google.state'' [] \<lparr>path = ''/interaction/'' @ params_uid rq @ ''/federated'', sameSite = None\<rparr>]"
  using assms
  by (simp_all add: post_federated_def andThen_def call_defs emit_def Let_def)

lemma post_federated_completion_nonce_refused:
  assumes "interactionDetails w = Inr d" and "name (prompt d) = ''login''"
    and "field (body rq) ''provider'' = JStr ''google''" and "callbackParams w \<noteq> []"
    and "cookie_jar w ''google.state'' []
           \<lparr>path = ''/interaction/'' @ params_uid rq @ ''/federated'', sameSite = None\<rparr> = Inr u"
    and "cookie_jar w ''google.nonce'' []
           \<lparr>path = ''/interaction/'' @ params_uid rq @ ''/federated'', sameSite = None\<rparr> = Inl e"
  shows "fst (post_federated w rq c) = Inl e"
    and "set_cookies (snd (post_federated w rq c)) = set_cookies c @
          [(''google.state'', [], \<lparr>path = ''/interaction/'' @ params_uid rq @ ''/federated'', sameSite = None\<rparr>)]"
    and "trace (snd (post_federated w rq c)) = trace c @
          [InteractionDetails, CallbackParams,
           CookiesGet ''google.state'',
           CookiesSet ''google.state'' [] \<lparr>path = ''/interaction/'' @ params_uid rq @ ''/federated'', sameSite = None\<rparr>,
           CookiesGet ''google.nonce'',
           CookiesSet ''google.nonce'' [] \<lparr>path = ''/interaction/'' @ params_uid rq @ ''/federated'', sameSite = None\<rparr>]"
  using assms
  by (simp_all add: post_federated_def andThen_def call_defs emit_def Let_def)

lemma post_federated_completion:
  assumes "interactionDetails w = Inr d" and "name (prompt d) = ''login''"
    and "field (body rq) ''provider'' = JStr ''google''" and "callbackParams w \<noteq> []"
    and "cookie_jar w ''google.state'' []
           \<lparr>path = ''/interaction/'' @ params_uid rq @ ''/federated'', sameSite = None\<rparr> = Inr u"
    and "cookie_jar w ''google.nonce'' []
           \<lparr>path = ''/interaction/'' @ params_uid rq @ ''/federated'', sameSite = None\<rparr> = Inr u'"
  shows "set_cookies (snd (post_federated w rq c)) = set_cookies c @
          [(''google.state'', [], \<lparr>path = ''/interaction/'' @ params_uid rq @ ''/federated'', sameSite = None\<rparr>),
           (''google.nonce'', [], \<lparr>path = ''/interaction/'' @ params_uid rq @ ''/federated'', sameSite = None\<rparr>)]"
    and "trace (snd (post_federated w rq c)) = trace c @
          [InteractionDetails, CallbackParams,
           CookiesGet ''google.state'',
           CookiesSet ''google.state'' [] \<lparr>path = ''/interaction/'' @ params_uid rq @ ''/federated'', sameSite = None\<rparr>,
           CookiesGet ''google.nonce'',
           CookiesSet ''google.nonce'' [] \<lparr>path = ''/interaction/'' @ params_uid rq @ ''/federated'', sameSite = None\<rparr>,
           GoogleCallback (callbackParams w) (cookies rq ''google.state'')
             (cookies rq ''google.nonce'') ''id_token''] @
          completion_tail w rq"
proof -
  have "set_cookies (snd (post_federated w rq c)) = set_cookies c @
          [(''google.state'', [], \<lparr>path = ''/interaction/'' @ params_uid rq @ ''/federated'', sameSite = None\<rparr>),
           (''google.nonce'', [], \<lparr>path = ''/interaction/'' @ params_uid rq @ ''/federated'', sameSite = None\<rparr>)]
    \<and> trace (snd (post_federated w rq c)) = trace c @
          [InteractionDetails, CallbackParams,
           CookiesGet ''google.state'',
           CookiesSet ''google.state'' [] \<lparr>path = ''/interaction/'' @ params_uid rq @ ''/federated'', sameSite = None\<rparr>,
           CookiesGet ''google.nonce'',
           CookiesSet ''google.nonce'' [] \<lparr>path = ''/interaction/'' @ params_uid rq @ ''/federated'', sameSite = None\<rparr>,
           GoogleCallback (callbackParams w) (cookies rq ''google.state'')
             (cookies rq ''google.nonce'') ''id_token''] @
          completion_tail w rq"
  proof (cases "callback w (callbackParams w) (cookies rq ''google.state'')
      (cookies rq ''google.nonce'') ''id_token''")
    case (Inl e)
    with assms show ?thesis
      by (simp add: post_federated_def andThen_def call_defs emit_def Let_def completion_tail_def)
  next
    case (Inr ts)
    note ts = this
    show ?thesis
    proof (cases "id_claims ts")
      case (Inl e)
      with assms ts show ?thesis
        by (simp add: post_federated_def andThen_def call_defs emit_def Let_def completion_tail_def)
    next
      case (Inr cl)
      with assms ts show ?thesis
        by (cases "findByFederated w ''google'' cl")
           (simp_all add: post_federated_def andThen_def call_defs emit_def Let_def
              completion_tail_def)
    qed
  qed
  then show "set_cookies (snd (post_federated w rq c)) = set_cookies c @
          [(''google.state'', [], \<lparr>path = ''/interaction/'' @ params_uid rq @ ''/federated'', sameSite = None\<rparr>),
           (''google.nonce'', [], \<lparr>path = ''/interaction/'' @ params_uid rq @ ''/federated'', sameSite = None\<rparr>)]"
    and "trace (snd (post_federated w rq c)) = trace c @
          [InteractionDetails, CallbackParams,
           CookiesGet ''google.state'',
           CookiesSet ''google.state'' [] \<lparr>path = ''/interaction/'' @ params_uid rq @ ''/federated'', sameSite = None\<rparr>,
           CookiesGet ''google.nonce'',
           CookiesSet ''google.nonce'' [] \<lparr>path = ''/interaction/'' @ params_uid rq @ ''/federated'', sameSite = None\<rparr>,
           GoogleCallback (callbackParams w) (cookies rq ''google.state'')
             (cookies rq ''google.nonce'') ''id_token''] @
          completion_tail w rq"
    by simp_all
qed

lemma post_federated_completion_outcome:
  assumes "interactionDetails w = Inr d" and "name (prompt d) = ''login''"
    and "field (body rq) ''provider'' = JStr ''google''" and "callbackParams w \<noteq> []"
    and "cookie_jar w ''google.state'' []
           \<lparr>path = ''/interaction/'' @ params_uid rq @ ''/federated'', sameSite = None\<rparr> = Inr u"
    and "cookie_jar w ''google.nonce'' []
           \<lparr>path = ''/interaction/'' @ params_uid rq @ ''/federated'', sameSite = None\<rparr> = Inr u'"
  shows "fst (post_federated w rq c) =
     (case callback w (callbackParams w) (cookies rq ''google.state'') (cookies rq ''google.nonce'')
             ''id_token'' of
        Inl e \<Rightarrow> Inl e
      | Inr ts \<Rightarrow>
          (case id_claims ts of
             Inl e \<Rightarrow> Inl e
           | Inr cl \<Rightarrow>
               (case findByFederated w ''google'' cl of
                  Inl e \<Rightarrow> Inl e
                | Inr found \<Rightarrow> interactionFinished w (login_result found) False)))"
proof (cases "callback w (callbackParams w) (cookies rq ''google.state'')
    (cookies rq ''google.nonce'') ''id_token''")
  case (Inl e)
  with assms show ?thesis
    by (simp add: post_federated_def andThen_def call_defs emit_def Let_def)
next
  case (Inr ts)
  note ts = this
  show ?thesis
  proof (cases "id_claims ts")
    case (Inl e)
    with assms ts show ?thesis
      by (simp add: post_federated_def andThen_def call_defs emit_def Let_def)
  next
    case (Inr cl)
    with assms ts show ?thesis
      by (cases "findByFederated w ''google'' cl")
         (simp_all add: post_federated_def andThen_def call_defs emit_def Let_def)
  qed
qed

text \<open>The initiation branch, by what the cookie jar answers to the two writes.\<close>

lemma post_federated_initiation_state_refused:
  assumes "interactionDetails w = Inr d" and "name (prompt d) = ''login''"
    and "field (body rq) ''provider'' = JStr ''google''" and "callbackParams w = []"
    and "cookie_jar w ''google.state''
           (params_uid rq @ ''|'' @ toString_hex (draw w (entropy_used c)))
           \<lparr>path = ''/interaction/'' @ params_uid rq @ ''/federated'', sameSite = Some ''strict''\<rparr> = Inl e"
  shows "fst (post_federated w rq c) = Inl e"
    and "set_cookies (snd (post_federated w rq c)) = set_cookies c"
    and "trace (snd (post_federated w rq c)) = trace c @
          [InteractionDetails, CallbackParams, RandomBytes 32, RandomBytes 32,
           CookiesSet ''google.state''
             (params_uid rq @ ''|'' @ toString_hex (draw w (entropy_used c)))
             \<lparr>path = ''/interaction/'' @ params_uid rq @ ''/federated'', sameSite = Some ''strict''\<rparr>]"
  using assms
  by (simp_all add: post_federated_def andThen_def call_defs emit_def Let_def draw_def)

lemma post_federated_initiation_nonce_refused:
  assumes "interactionDetails w = Inr d" and "name (prompt d) = ''login''"
    and "field (body rq) ''provider'' = JStr ''google''" and "callbackParams w = []"
    and "cookie_jar w ''google.state''
           (params_uid rq @ ''|'' @ toString_hex (draw w (entropy_used c)))
           \<lparr>path = ''/interaction/'' @ params_uid rq @ ''/federated'', sameSite = Some ''strict''\<rparr> = Inr u"
    and "cookie_jar w ''google.nonce''
           (toString_hex (draw w (entropy_used c + 32)))
           \<lparr>path = ''/interaction/'' @ params_uid rq @ ''/federated'', sameSite = Some ''strict''\<rparr> = Inl e"
  shows "fst (post_federated w rq c) = Inl e"
    and "set_cookies (snd (post_federated w rq c)) = set_cookies c @
          [(''google.state'',
            params_uid rq @ ''|'' @ toString_hex (draw w (entropy_used c)),
            \<lparr>path = ''/interaction/'' @ params_uid rq @ ''/federated'', sameSite = Some ''strict''\<rparr>)]"
    and "trace (snd (post_federated w rq c)) = trace c @
          [InteractionDetails, CallbackParams, RandomBytes 32, RandomBytes 32,
           CookiesSet ''google.state''
             (params_uid rq @ ''|'' @ toString_hex (draw w (entropy_used c)))
             \<lparr>path = ''/interaction/'' @ params_uid rq @ ''/federated'', sameSite = Some ''strict''\<rparr>,
           CookiesSet ''google.nonce''
             (toString_hex (draw w (entropy_used c + 32)))
             \<lparr>path = ''/interaction/'' @ params_uid rq @ ''/federated'', sameSite = Some ''strict''\<rparr>]"
  using assms
  by (simp_all add: post_federated_def andThen_def call_defs emit_def Let_def draw_def)

lemma post_federated_initiation:
  assumes "interactionDetails w = Inr d" and "name (prompt d) = ''login''"
    and "field (body rq) ''provider'' = JStr ''google''" and "callbackParams w = []"
    and "cookie_jar w ''google.state''
           (params_uid rq @ ''|'' @ toString_hex (draw w (entropy_used c)))
           \<lparr>path = ''/interaction/'' @ params_uid rq @ ''/federated'', sameSite = Some ''strict''\<rparr> = Inr u"
    and "cookie_jar w ''google.nonce''
           (toString_hex (draw w (entropy_used c + 32)))
           \<lparr>path = ''/interaction/'' @ params_uid rq @ ''/federated'', sameSite = Some ''strict''\<rparr> = Inr u'"
  shows "fst (post_federated w rq c) = Inr ()"
    and "set_cookies (snd (post_federated w rq c)) = set_cookies c @
          [(''google.state'',
            params_uid rq @ ''|'' @ toString_hex (draw w (entropy_used c)),
            \<lparr>path = ''/interaction/'' @ params_uid rq @ ''/federated'', sameSite = Some ''strict''\<rparr>),
           (''google.nonce'',
            toString_hex (draw w (entropy_used c + 32)),
            \<lparr>path = ''/interaction/'' @ params_uid rq @ ''/federated'', sameSite = Some ''strict''\<rparr>)]"
    and "trace (snd (post_federated w rq c)) = trace c @
          [InteractionDetails, CallbackParams, RandomBytes 32, RandomBytes 32,
           CookiesSet ''google.state''
             (params_uid rq @ ''|'' @ toString_hex (draw w (entropy_used c)))
             \<lparr>path = ''/interaction/'' @ params_uid rq @ ''/federated'', sameSite = Some ''strict''\<rparr>,
           CookiesSet ''google.nonce''
             (toString_hex (draw w (entropy_used c + 32)))
             \<lparr>path = ''/interaction/'' @ params_uid rq @ ''/federated'', sameSite = Some ''strict''\<rparr>,
           AuthorizationUrl
             (params_uid rq @ ''|'' @ toString_hex (draw w (entropy_used c)))
             (toString_hex (draw w (entropy_used c + 32)))
             ''openid email profile'',
           Redirect (authorizationUrl w
             (params_uid rq @ ''|'' @ toString_hex (draw w (entropy_used c)))
             (toString_hex (draw w (entropy_used c + 32)))
             ''openid email profile'')]"
  using assms
  by (simp_all add: post_federated_def andThen_def call_defs emit_def Let_def draw_def ctx_set_def)

text \<open>
  Outside the completion branch with both clearing writes accepted, the route makes no
  account lookup and resolves nothing.
\<close>

lemma post_federated_quiet:
  assumes "\<not> (completion w rq \<and>
      cookie_jar w ''google.state'' []
        \<lparr>path = ''/interaction/'' @ params_uid rq @ ''/federated'', sameSite = None\<rparr> = Inr () \<and>
      cookie_jar w ''google.nonce'' []
        \<lparr>path = ''/interaction/'' @ params_uid rq @ ''/federated'', sameSite = None\<rparr> = Inr ())"
  shows "resolutions (events_of c (post_federated w rq c)) = []"
    and "FindByFederated p cl r \<notin> set (events_of c (post_federated w rq c))"
proof -
  have "resolutions (events_of c (post_federated w rq c)) = []
      \<and> FindByFederated p cl r \<notin> set (events_of c (post_federated w rq c))"
  proof (cases "interactionDetails w")
    case (Inl e)
    then show ?thesis
      by (simp add: post_federated_no_details events_of_def)
  next
    case (Inr d)
    note d = this
    show ?thesis
    proof (cases "name (prompt d) = ''login''")
      case False
      with d show ?thesis
        by (simp add: post_federated_wrong_prompt events_of_def)
    next
      case True
      note nm = this
      show ?thesis
      proof (cases "field (body rq) ''provider'' = JStr ''google''")
        case False
        with d nm show ?thesis
          by (simp add: post_federated_other_provider events_of_def)
      next
        case True
        note pr = this
        show ?thesis
        proof (cases "callbackParams w = []")
          case True
          note cb = this
          show ?thesis
          proof (cases "cookie_jar w ''google.state''
               (params_uid rq @ ''|'' @ toString_hex (draw w (entropy_used c)))
               \<lparr>path = ''/interaction/'' @ params_uid rq @ ''/federated'', sameSite = Some ''strict''\<rparr>")
            case (Inl e)
            from post_federated_initiation_state_refused(3) [OF d nm pr cb Inl]
            show ?thesis by (simp add: events_of_def)
          next
            case (Inr u)
            note st = this
            show ?thesis
            proof (cases "cookie_jar w ''google.nonce''
                 (toString_hex (draw w (entropy_used c + 32)))
                 \<lparr>path = ''/interaction/'' @ params_uid rq @ ''/federated'', sameSite = Some ''strict''\<rparr>")
              case (Inl e)
              from post_federated_initiation_nonce_refused(3) [OF d nm pr cb st Inl]
              show ?thesis by (simp add: events_of_def)
            next
              case (Inr u')
              from post_federated_initiation(3) [OF d nm pr cb st Inr]
              show ?thesis by (simp add: events_of_def)
            qed
          qed
        next
          case False
          note cb = this
          show ?thesis
          proof (cases "cookie_jar w ''google.state'' []
               \<lparr>path = ''/interaction/'' @ params_uid rq @ ''/federated'', sameSite = None\<rparr>")
            case (Inl e)
            from post_federated_completion_state_refused(3) [OF d nm pr cb Inl, of c]
            show ?thesis by (simp add: events_of_def)
          next
            case (Inr u)
            note st = this
            show ?thesis
            proof (cases "cookie_jar w ''google.nonce'' []
                 \<lparr>path = ''/interaction/'' @ params_uid rq @ ''/federated'', sameSite = None\<rparr>")
              case (Inl e)
              from post_federated_completion_nonce_refused(3) [OF d nm pr cb st Inl, of c]
              show ?thesis by (simp add: events_of_def)
            next
              case (Inr u')
              with assms d nm pr cb st show ?thesis
                by (simp add: completion_def)
            qed
          qed
        qed
      qed
    qed
  qed
  then show "resolutions (events_of c (post_federated w rq c)) = []"
    and "FindByFederated p cl r \<notin> set (events_of c (post_federated w rq c))"
    by simp_all
qed

lemma resolutions_completion_tail:
  "x \<in> set (resolutions (completion_tail w rq)) \<Longrightarrow> snd x = False"
  by (auto simp: completion_tail_def split: sum.splits)

lemma completion_tail_lookup:
  "FindByFederated p cl (Inr found) \<in> set (completion_tail w rq) \<Longrightarrow>
   resolutions (completion_tail w rq) = [(login_result found, False)]"
  by (auto simp: completion_tail_def split: sum.splits)














lemma completion_tail_outcome:
  "FindByFederated p cl (Inr found) \<in> set (completion_tail w rq) \<Longrightarrow>
   (case callback w (callbackParams w) (cookies rq ''google.state'') (cookies rq ''google.nonce'')
             ''id_token'' of
        Inl e \<Rightarrow> Inl e
      | Inr ts \<Rightarrow>
          (case id_claims ts of
             Inl e \<Rightarrow> Inl e
           | Inr cl \<Rightarrow>
               (case findByFederated w ''google'' cl of
                  Inl e \<Rightarrow> Inl e
                | Inr found \<Rightarrow> interactionFinished w (login_result found) False)))
   = interactionFinished w (login_result found) False"
  by (auto simp: completion_tail_def split: sum.splits)

lemma completionD:
  assumes "completion w rq"
  obtains d where "interactionDetails w = Inr d" and "name (prompt d) = ''login''"
    and "field (body rq) ''provider'' = JStr ''google''" and "callbackParams w \<noteq> []"
  using assms by (cases "interactionDetails w") (simp_all add: completion_def)

lemma post_federated_lookup:
  assumes "FindByFederated p cl (Inr found) \<in> set (events_of c (post_federated w rq c))"
  shows "resolutions (events_of c (post_federated w rq c)) = [(login_result found, False)]"
    and "fst (post_federated w rq c) = interactionFinished w (login_result found) False"
proof -
  from assms post_federated_quiet(2) [of w rq p cl "Inr found" c]
  have cm: "completion w rq"
    and st: "cookie_jar w ''google.state'' []
        \<lparr>path = ''/interaction/'' @ params_uid rq @ ''/federated'', sameSite = None\<rparr> = Inr ()"
    and nc: "cookie_jar w ''google.nonce'' []
        \<lparr>path = ''/interaction/'' @ params_uid rq @ ''/federated'', sameSite = None\<rparr> = Inr ()"
    by blast+
  from cm obtain d where h: "interactionDetails w = Inr d" "name (prompt d) = ''login''"
    "field (body rq) ''provider'' = JStr ''google''" "callbackParams w \<noteq> []"
    by (rule completionD)
  from post_federated_completion(2) [OF h st nc, of c] assms
  have m: "FindByFederated p cl (Inr found) \<in> set (completion_tail w rq)"
    by (simp add: events_of_def)
  from post_federated_completion(2) [OF h st nc, of c] completion_tail_lookup [OF m]
  show "resolutions (events_of c (post_federated w rq c)) = [(login_result found, False)]"
    by (simp add: events_of_def resolutions_append)
  from post_federated_completion_outcome [OF h st nc, of c] completion_tail_outcome [OF m]
  show "fst (post_federated w rq c) = interactionFinished w (login_result found) False"
    by simp
qed

lemma resolutions_post_federated:
  assumes "x \<in> set (resolutions (events_of c (post_federated w rq c)))"
  shows "snd x = False"
proof -
  from assms post_federated_quiet(1) [of w rq c]
  have cm: "completion w rq"
    and st: "cookie_jar w ''google.state'' []
        \<lparr>path = ''/interaction/'' @ params_uid rq @ ''/federated'', sameSite = None\<rparr> = Inr ()"
    and nc: "cookie_jar w ''google.nonce'' []
        \<lparr>path = ''/interaction/'' @ params_uid rq @ ''/federated'', sameSite = None\<rparr> = Inr ()"
    by fastforce+
  from cm obtain d where h: "interactionDetails w = Inr d" "name (prompt d) = ''login''"
    "field (body rq) ''provider'' = JStr ''google''" "callbackParams w \<noteq> []"
    by (rule completionD)
  from post_federated_completion(2) [OF h st nc, of c] assms
  have "x \<in> set (resolutions (completion_tail w rq))"
    by (simp add: events_of_def resolutions_append)
  then show ?thesis by (rule resolutions_completion_tail)
qed

subsection \<open>continue\<close>

lemma split_on_nonempty: "split_on c s \<noteq> []"
  by (induction s) (auto split: list.splits)

lemma split_on_append: "split_on c (p @ c # t) = split_on c p @ split_on c t"
proof (induction p)
  case Nil
  show ?case by simp
next
  case (Cons x xs)
  obtain y ys where "split_on c xs = y # ys"
    using split_on_nonempty [of c xs] by (cases "split_on c xs") auto
  with Cons show ?case by simp
qed

lemma join_split_on: "join [c] (split_on c s) = s"
proof (induction s)
  case Nil
  show ?case by simp
next
  case (Cons x xs)
  obtain y ys where yys: "split_on c xs = y # ys"
    using split_on_nonempty [of c xs] by (cases "split_on c xs") auto
  show ?case
  proof (cases "x = c")
    case True
    with Cons yys show ?thesis by simp
  next
    case False
    with Cons yys show ?thesis by (cases ys) auto
  qed
qed

lemma join_snoc: "xs \<noteq> [] \<Longrightarrow> join sep (xs @ [t]) = join sep xs @ sep @ t"
  by (induction sep xs rule: join.induct) auto

lemma join_split_on_snoc: "join [c] (split_on c s @ [t]) = s @ c # t"
  by (simp add: join_snoc split_on_nonempty join_split_on)

lemma switch_prompt_set:
  "field (params d) ''prompt'' = JStr p \<Longrightarrow> p \<noteq> [] \<Longrightarrow>
   switch_prompt d c =
     (Inr (d\<lparr>params := AList.update ''prompt'' (JStr (p @ '' login'')) (params d)\<rparr>), c)"
  using join_split_on_snoc [of "CHR '' ''" p "''login''"]
  by (simp add: switch_prompt_def)

lemma switch_prompt_unset:
  "\<not> truthy (field (params d) ''prompt'') \<Longrightarrow>
   switch_prompt d c =
     (Inr (d\<lparr>params := AList.update ''prompt'' (JStr ''logout'') (params d)\<rparr>), c)"
  by (simp add: switch_prompt_def)

lemma post_continue_switch:
  assumes "interactionDetails w = Inr d" and "name (prompt d) = ''select_account''"
    and "truthy (field (body rq) ''switch'')"
    and "switch_prompt d (c\<lparr>trace := trace c @ [InteractionDetails]\<rparr>) =
           (Inr (d\<lparr>params := ps\<rparr>), c\<lparr>trace := trace c @ [InteractionDetails]\<rparr>)"
  shows "events_of c (post_continue w rq c) =
           InteractionDetails # Save ps #
           (case save w ps of
              Inl e \<Rightarrow> []
            | Inr u \<Rightarrow> [InteractionFinished (JObj [(''select_account'', JObj [])]) False])"
    and "fst (post_continue w rq c) =
           (case save w ps of
              Inl e \<Rightarrow> Inl e
            | Inr u \<Rightarrow> interactionFinished w (JObj [(''select_account'', JObj [])]) False)"
  using assms
  by (cases "save w ps";
      simp add: post_continue_def andThen_def call_interactionDetails_def
        call_interactionFinished_def call_save_def assert_equal_def emit_def events_of_def)+

lemma post_continue_no_switch:
  assumes "interactionDetails w = Inr d" and "name (prompt d) = ''select_account''"
    and "\<not> truthy (field (body rq) ''switch'')"
  shows "events_of c (post_continue w rq c) =
           [InteractionDetails, InteractionFinished (JObj [(''select_account'', JObj [])]) False]"
    and "fst (post_continue w rq c) =
           interactionFinished w (JObj [(''select_account'', JObj [])]) False"
  using assms
  by (simp_all add: post_continue_def andThen_def call_interactionDetails_def
        call_interactionFinished_def assert_equal_def emit_def events_of_def)

lemma resolutions_post_continue:
  "x \<in> set (resolutions (events_of c (post_continue w rq c))) \<Longrightarrow>
     x = (JObj [(''select_account'', JObj [])], False)"
  by (auto simp: post_continue_def switch_prompt_def andThen_def call_interactionDetails_def
        call_interactionFinished_def call_save_def assert_equal_def emit_def events_of_def Let_def
      split: sum.splits if_splits jsval.splits)

subsection \<open>interaction views, confirm, abort and the router\<close>

lemma trace_call_debug: "trace (snd (call_debug w ob s)) = trace s"
  by (cases "debug (inspect w) ob (keys s)") (simp add: call_debug_def)

lemma trace_debug_locals: "trace (snd (debug_locals w d s)) = trace s"
proof -
  obtain a s1 where 1: "(case session d of
              None \<Rightarrow> (JUndefined, s)
            | Some sess \<Rightarrow> (case call_debug w sess s of (out, s1) \<Rightarrow> (JStr out, s1))) = (a, s1)"
    by (cases "(case session d of
              None \<Rightarrow> (JUndefined, s)
            | Some sess \<Rightarrow> (case call_debug w sess s of (out, s1) \<Rightarrow> (JStr out, s1)))")
  have t1: "trace s1 = trace s"
  proof (cases "session d")
    case None
    with 1 show ?thesis by simp
  next
    case (Some sess)
    with 1 trace_call_debug [of w sess s] show ?thesis
      by (cases "call_debug w sess s") auto
  qed
  obtain b s2 where 2: "call_debug w (params d) s1 = (b, s2)"
    by (cases "call_debug w (params d) s1")
  obtain e s3 where 3: "call_debug w (prompt_entries (prompt d)) s2 = (e, s3)"
    by (cases "call_debug w (prompt_entries (prompt d)) s2")
  from trace_call_debug [of w "params d" s1] 2 have t2: "trace s2 = trace s1" by simp
  from trace_call_debug [of w "prompt_entries (prompt d)" s2] 3 have t3: "trace s3 = trace s2" by simp
  from 1 2 3 t1 t2 t3 show ?thesis
    by (simp add: debug_locals_def)
qed

lemma render_with_debug:
  "events_of c0 (case debug_locals w d c of (dbg, c') \<Rightarrow> call_render w view (f dbg) c') =
   drop (length (trace c0)) (trace c) @ [Render view (f (fst (debug_locals w d c)))]"
  if "length (trace c0) \<le> length (trace c)"
  using that trace_debug_locals [of w d c]
  by (cases "debug_locals w d c") (simp add: call_render_def emit_def events_of_def)

lemma resolutions_get_interaction:
  assumes "x \<in> set (resolutions (events_of c (get_interaction w rq c)))"
  shows "x = (JObj [(''select_account'', JObj [])], False)"
proof (cases "interactionDetails w")
  case (Inl e)
  with assms show ?thesis
    by (simp add: get_interaction_def andThen_def call_defs emit_def events_of_def)
next
  case (Inr d)
  note d = this
  show ?thesis
  proof (cases "Client_find w (field (params d) ''client_id'')")
    case (Inl e)
    with assms d show ?thesis
      by (simp add: get_interaction_def andThen_def call_defs emit_def events_of_def)
  next
    case (Inr client)
    note cl = this
    let ?c2 = "c\<lparr>trace := trace c @ [InteractionDetails, ClientFind (field (params d) ''client_id'')]\<rparr>"
    have len: "length (trace c) \<le> length (trace ?c2)" by simp
    consider (sel) "name (prompt d) = ''select_account''"
      | (login) "name (prompt d) = ''login''"
      | (consent) "name (prompt d) = ''consent''"
      | (other) "name (prompt d) \<noteq> ''select_account''" "name (prompt d) \<noteq> ''login''"
          "name (prompt d) \<noteq> ''consent''"
      by blast
    then show ?thesis
    proof cases
      case sel
      show ?thesis
      proof (cases "session d")
        case None
        with assms d cl sel show ?thesis
          by (simp add: get_interaction_def andThen_def call_defs emit_def events_of_def)
      next
        case (Some sess)
        note sess = this
        show ?thesis
        proof (cases "findAccount w (field sess ''accountId'')")
          case (Inl e)
          with assms d cl sel sess show ?thesis
            by (simp add: get_interaction_def andThen_def call_defs emit_def events_of_def)
        next
          case (Inr found)
          note found = this
          show ?thesis
          proof (cases found)
            case None
            with assms d cl sel sess found show ?thesis
              by (simp add: get_interaction_def andThen_def call_defs emit_def events_of_def)
          next
            case (Some acct)
            note acct = this
            show ?thesis
            proof (cases "claims w acct ''prompt'' ''email'' [(''email'', JNull)] []")
              case (Inl e)
              with assms d cl sel sess found acct show ?thesis
                by (simp add: get_interaction_def andThen_def call_defs emit_def events_of_def)
            next
              case (Inr cls)
              let ?c4 = "c\<lparr>trace := trace c @ [InteractionDetails,
                  ClientFind (field (params d) ''client_id''),
                  FindAccount (field sess ''accountId''),
                  AccountClaims acct ''prompt'' ''email'' [(''email'', JNull)] []]\<rparr>"
              have len4: "length (trace c) \<le> length (trace ?c4)" by simp
              from assms d cl sel sess found acct Inr show ?thesis
                by (simp add: get_interaction_def andThen_def call_interactionDetails_def
                      call_Client_find_def call_findAccount_def call_claims_def emit_def
                      render_with_debug [OF len4] resolutions_append)
            qed
          qed
        qed
      qed
    next
      case login
      with assms d cl show ?thesis
        by (simp add: get_interaction_def andThen_def call_interactionDetails_def
              call_Client_find_def emit_def render_with_debug [OF len] resolutions_append)
    next
      case consent
      with assms d cl show ?thesis
        by (simp add: get_interaction_def andThen_def call_interactionDetails_def
              call_Client_find_def emit_def render_with_debug [OF len] resolutions_append)
    next
      case other
      with assms d cl show ?thesis
        by (simp add: get_interaction_def andThen_def call_defs emit_def events_of_def)
    qed
  qed
qed

lemma resolutions_get_callback_google:
  "x \<in> set (resolutions (events_of c (get_callback_google w rq c))) \<Longrightarrow> snd x = False"
  by (simp add: get_callback_google_def call_render_def emit_def events_of_def)

lemma post_confirm_events:
  "events_of c (post_confirm w rq c) =
     InteractionDetails #
     (case interactionDetails w of
        Inl e \<Rightarrow> []
      | Inr d \<Rightarrow>
          if name (prompt d) = ''consent'' then [InteractionFinished consent_result True] else [])"
  by (cases "interactionDetails w")
     (simp_all add: post_confirm_def andThen_def call_interactionDetails_def
        call_interactionFinished_def assert_equal_def emit_def events_of_def)

lemma resolutions_post_confirm:
  "x \<in> set (resolutions (events_of c (post_confirm w rq c))) \<Longrightarrow> x = (consent_result, True)"
  unfolding post_confirm_events by (auto split: sum.splits if_splits)

lemma resolutions_get_abort:
  "x \<in> set (resolutions (events_of c (get_abort w rq c))) \<Longrightarrow> snd x = False"
  by (simp add: get_abort_def call_interactionFinished_def emit_def events_of_def)

lemma resolutions_handler:
  assumes "x \<in> set (resolutions (events_of c (handler r w rq c)))"
  shows "snd x = (r = PostConfirm)"
proof (cases r)
  case GetInteraction
  with assms resolutions_get_interaction [of x c w rq] show ?thesis by simp
next
  case GetCallbackGoogle
  with assms resolutions_get_callback_google [of x c w rq] show ?thesis by simp
next
  case PostLogin
  with assms resolutions_post_login [of x c w rq] show ?thesis by simp
next
  case PostFederated
  with assms resolutions_post_federated [of x c w rq] show ?thesis by simp
next
  case PostContinue
  with assms resolutions_post_continue [of x c w rq] show ?thesis by simp
next
  case PostConfirm
  with assms resolutions_post_confirm [of x c w rq] show ?thesis by simp
next
  case GetAbort
  with assms resolutions_get_abort [of x c w rq] show ?thesis by simp
qed

lemma trace_ctx_set: "trace (ctx_set h v s) = trace s"
  by (simp add: ctx_set_def)

lemma trace_middleware:
  "trace (snd (middleware nxt ctx)) =
     trace (snd (nxt (ctx_set ''Cache-Control'' ''no-cache, no-store'' (ctx_set ''Pragma'' ''no-cache'' ctx))))"
proof -
  let ?c = "ctx_set ''Cache-Control'' ''no-cache, no-store'' (ctx_set ''Pragma'' ''no-cache'' ctx)"
  obtain r c' where n: "nxt ?c = (r, c')" by (cases "nxt ?c")
  show ?thesis
  proof (cases r)
    case (Inl e)
    with n show ?thesis
      by (cases e) (simp_all add: middleware_def Let_def renderError_def)
  next
    case (Inr u)
    with n show ?thesis by (simp add: middleware_def Let_def)
  qed
qed

lemma events_of_router:
  "events_of ctx (router r w rq ctx) =
     events_of (ctx_set ''Cache-Control'' ''no-cache, no-store'' (ctx_set ''Pragma'' ''no-cache'' ctx))
       (handler r w rq (ctx_set ''Cache-Control'' ''no-cache, no-store'' (ctx_set ''Pragma'' ''no-cache'' ctx)))"
  by (simp add: events_of_def router_def trace_middleware trace_ctx_set)

lemmas example_defs =
  example_world_def example_interaction_def example_request_def example_ctx_def

subsection \<open>the federated handshake\<close>




lemma example_draw32: "toString_hex (draw (example_world ''login'') 32) =
    ''202122232425262728292a2b2c2d2e2f303132333435363738393a3b3c3d3e3f''"
  by code_simp


lemma example_draw96: "toString_hex (draw (example_world ''login'') 96) =
    ''606162636465666768696a6b6c6d6e6f707172737475767778797a7b7c7d7e7f''"
  by code_simp





text \<open>
  Koa's jar takes the writes of the handshake for the route \<open>/interaction/abc/federated\<close>
  and refuses every write whose path holds a line feed.
\<close>

lemma koa_accepts_clearing:
  "koa_cookie_jar ''google.state'' [] \<lparr>path = ''/interaction/abc/federated'', sameSite = None\<rparr> = Inr ()"
  "koa_cookie_jar ''google.nonce'' [] \<lparr>path = ''/interaction/abc/federated'', sameSite = None\<rparr> = Inr ()"
  by (simp_all add: koa_cookie_jar_def field_content_def)



section \<open>The claims about the routes\<close>

text \<open>
  Claim C1. When the engine reports a pending \<open>select_account\<close> prompt and no session,
  \<open>GET /interaction/:uid\<close> renders no view; once the client lookup that precedes the
  dispatch has returned, the handler's next and last call resolves the interaction with
  \<open>{select_account: {}}\<close> and \<open>mergeWithLastSubmission: false\<close>, and the handler returns
  what that call returns. (If the client lookup throws, the error propagates and nothing
  is rendered or resolved.)
\<close>

theorem get_interaction_select_account_no_session:
  assumes "interactionDetails w = Inr d" and "name (prompt d) = ''select_account''"
    and "session d = None"
  shows "renders (events_of ctx (get_interaction w rq ctx)) = []
    \<and> (\<forall>client. Client_find w (field (params d) ''client_id'') = Inr client \<longrightarrow>
          get_interaction w rq ctx =
            (interactionFinished w (JObj [(''select_account'', JObj [])]) False,
             ctx\<lparr>trace := trace ctx @
               [InteractionDetails, ClientFind (field (params d) ''client_id''),
                InteractionFinished (JObj [(''select_account'', JObj [])]) False]\<rparr>))
    \<and> (\<forall>e. Client_find w (field (params d) ''client_id'') = Inl e \<longrightarrow>
          get_interaction w rq ctx =
            (Inl e, ctx\<lparr>trace := trace ctx @
               [InteractionDetails, ClientFind (field (params d) ''client_id'')]\<rparr>))"
  using assms
  by (cases "Client_find w (field (params d) ''client_id'')")
     (simp_all add: get_interaction_def andThen_def call_interactionDetails_def
        call_Client_find_def call_interactionFinished_def emit_def events_of_def)

theorem get_interaction_select_account_no_session_witness:
  "interactionDetails (example_world ''select_account'') = Inr (example_interaction ''select_account'')
   \<and> name (prompt (example_interaction ''select_account'')) = ''select_account''
   \<and> session (example_interaction ''select_account'') = None
   \<and> renders (events_of example_ctx
         (get_interaction (example_world ''select_account'') (example_request []) example_ctx)) = []
   \<and> get_interaction (example_world ''select_account'') (example_request []) example_ctx =
        (Inr (),
         example_ctx\<lparr>trace :=
           [InteractionDetails, ClientFind (JStr ''foo''),
            InteractionFinished (JObj [(''select_account'', JObj [])]) False]\<rparr>)"
proof -
  have h: "interactionDetails (example_world ''select_account'') = Inr (example_interaction ''select_account'')"
    "name (prompt (example_interaction ''select_account'')) = ''select_account''"
    "session (example_interaction ''select_account'') = None"
    by (simp_all add: example_defs)
  have c: "Client_find (example_world ''select_account'')
      (field (params (example_interaction ''select_account'')) ''client_id'') =
        Inr (JObj [(''client_id'', JStr ''foo'')])"
    by (simp add: example_defs field_def)
  have t: "trace example_ctx = []" "field (params (example_interaction ''select_account'')) ''client_id'' = JStr ''foo''"
    "interactionFinished (example_world ''select_account'') (JObj [(''select_account'', JObj [])]) False = Inr ()"
    by (simp_all add: example_defs field_def)
  from get_interaction_select_account_no_session [OF h, of example_ctx "example_request []"] h c t
  show ?thesis by (simp add: events_of_def)
qed

text \<open>
  Claim C2. On \<open>POST /interaction/:uid/login\<close> and on the completion of a federated
  callback: if the account lookup returned an account, the interaction is resolved exactly
  once, with \<open>{select_account: {}, login: {account: accountId}}\<close>; if it returned no
  account, the interaction is resolved exactly once with the empty result \<open>{}\<close>; in
  both cases the handler returns what the engine's resolution returns (no error of its
  own), and every resolution of the two routes passes \<open>mergeWithLastSubmission: false\<close>.
\<close>

theorem login_and_federated_resolution:
  "(FindByLogin l (Inr (Some acct)) \<in> set (events_of ctx (post_login w rq ctx)) \<longrightarrow>
      resolutions (events_of ctx (post_login w rq ctx)) =
        [(JObj [(''select_account'', JObj []),
                (''login'', JObj [(''account'', JStr (accountId acct))])], False)]
      \<and> fst (post_login w rq ctx) =
        interactionFinished w
          (JObj [(''select_account'', JObj []),
                 (''login'', JObj [(''account'', JStr (accountId acct))])]) False)
   \<and> (FindByLogin l (Inr None) \<in> set (events_of ctx (post_login w rq ctx)) \<longrightarrow>
      resolutions (events_of ctx (post_login w rq ctx)) = [(JObj [], False)]
      \<and> fst (post_login w rq ctx) = interactionFinished w (JObj []) False)
   \<and> (FindByFederated p cl (Inr (Some acct)) \<in> set (events_of ctx (post_federated w rq ctx)) \<longrightarrow>
      resolutions (events_of ctx (post_federated w rq ctx)) =
        [(JObj [(''select_account'', JObj []),
                (''login'', JObj [(''account'', JStr (accountId acct))])], False)]
      \<and> fst (post_federated w rq ctx) =
        interactionFinished w
          (JObj [(''select_account'', JObj []),
                 (''login'', JObj [(''account'', JStr (accountId acct))])]) False)
   \<and> (FindByFederated p cl (Inr None) \<in> set (events_of ctx (post_federated w rq ctx)) \<longrightarrow>
      resolutions (events_of ctx (post_federated w rq ctx)) = [(JObj [], False)]
      \<and> fst (post_federated w rq ctx) = interactionFinished w (JObj []) False)
   \<and> (\<forall>x \<in> set (resolutions (events_of ctx (post_login w rq ctx))). snd x = False)
   \<and> (\<forall>x \<in> set (resolutions (events_of ctx (post_federated w rq ctx))). snd x = False)"
  using post_login_lookup [of l "Some acct" ctx w rq] post_login_lookup [of l None ctx w rq]
    post_federated_lookup [of p cl "Some acct" ctx w rq] post_federated_lookup [of p cl None ctx w rq]
    resolutions_post_login [of _ ctx w rq] resolutions_post_federated [of _ ctx w rq]
  by (simp add: login_result_def)


lemma example_post_login_events:
  "events_of example_ctx
     (post_login (example_world ''login'') (example_request [(''login'', JStr ''alice'')]) example_ctx) =
   [InteractionDetails,
    FindByLogin (JStr ''alice'') (Inr (Some \<lparr>accountId = ''u1''\<rparr>)),
    InteractionFinished
      (JObj [(''select_account'', JObj []), (''login'', JObj [(''account'', JStr ''u1'')])]) False]"
  by (simp add: post_login_events example_defs field_def login_result_def)

lemma example_post_login_unknown_events:
  "events_of example_ctx
     (post_login (example_world ''login'') (example_request [(''login'', JStr ''bob'')]) example_ctx) =
   [InteractionDetails,
    FindByLogin (JStr ''bob'') (Inr None),
    InteractionFinished (JObj []) False]"
  by (simp add: post_login_events example_defs field_def login_result_def)

lemma example_completion_tail:
  "completion_tail example_exchange (example_request [(''provider'', JStr ''google'')]) =
     [TokensetClaims,
      FindByFederated ''google'' [(''sub'', JStr ''g1'')] (Inr (Some \<lparr>accountId = ''u1''\<rparr>)),
      InteractionFinished
        (JObj [(''select_account'', JObj []), (''login'', JObj [(''account'', JStr ''u1'')])]) False]"
  by (simp add: completion_tail_def example_exchange_def example_defs login_result_def)

lemma example_exchange_facts:
  "interactionDetails example_exchange = Inr (example_interaction ''login'')"
  "name (prompt (example_interaction ''login'')) = ''login''"
  "field (body (example_request [(''provider'', JStr ''google'')])) ''provider'' = JStr ''google''"
  "callbackParams example_exchange \<noteq> []"
  "cookie_jar example_exchange ''google.state'' []
     \<lparr>path = ''/interaction/'' @ params_uid (example_request [(''provider'', JStr ''google'')]) @
               ''/federated'',
      sameSite = None\<rparr> = Inr ()"
  "cookie_jar example_exchange ''google.nonce'' []
     \<lparr>path = ''/interaction/'' @ params_uid (example_request [(''provider'', JStr ''google'')]) @
               ''/federated'',
      sameSite = None\<rparr> = Inr ()"
  by (simp_all add: example_exchange_def example_defs field_def koa_accepts_clearing)


lemma example_post_federated_events:
  "events_of example_ctx
     (post_federated example_exchange (example_request [(''provider'', JStr ''google'')]) example_ctx) =
   [InteractionDetails, CallbackParams,
    CookiesGet ''google.state'',
    CookiesSet ''google.state'' [] \<lparr>path = ''/interaction/abc/federated'', sameSite = None\<rparr>,
    CookiesGet ''google.nonce'',
    CookiesSet ''google.nonce'' [] \<lparr>path = ''/interaction/abc/federated'', sameSite = None\<rparr>,
    GoogleCallback [(''id_token'', JStr ''eyJ'')] None None ''id_token'',
    TokensetClaims,
    FindByFederated ''google'' [(''sub'', JStr ''g1'')] (Inr (Some \<lparr>accountId = ''u1''\<rparr>)),
    InteractionFinished
      (JObj [(''select_account'', JObj []), (''login'', JObj [(''account'', JStr ''u1'')])]) False]"
  using post_federated_completion(2) [OF example_exchange_facts, of example_ctx]
  by (simp add: events_of_def example_completion_tail)
     (simp add: example_exchange_def example_defs)

theorem login_and_federated_resolution_witness:
  "FindByLogin (JStr ''alice'') (Inr (Some \<lparr>accountId = ''u1''\<rparr>))
     \<in> set (events_of example_ctx
         (post_login (example_world ''login'') (example_request [(''login'', JStr ''alice'')]) example_ctx))
   \<and> resolutions (events_of example_ctx
         (post_login (example_world ''login'') (example_request [(''login'', JStr ''alice'')]) example_ctx)) =
       [(JObj [(''select_account'', JObj []), (''login'', JObj [(''account'', JStr ''u1'')])], False)]
   \<and> FindByLogin (JStr ''bob'') (Inr None)
     \<in> set (events_of example_ctx
         (post_login (example_world ''login'') (example_request [(''login'', JStr ''bob'')]) example_ctx))
   \<and> resolutions (events_of example_ctx
         (post_login (example_world ''login'') (example_request [(''login'', JStr ''bob'')]) example_ctx)) =
       [(JObj [], False)]
   \<and> FindByFederated ''google'' [(''sub'', JStr ''g1'')] (Inr (Some \<lparr>accountId = ''u1''\<rparr>))
     \<in> set (events_of example_ctx
         (post_federated example_exchange (example_request [(''provider'', JStr ''google'')]) example_ctx))
   \<and> resolutions (events_of example_ctx
         (post_federated example_exchange (example_request [(''provider'', JStr ''google'')]) example_ctx)) =
       [(JObj [(''select_account'', JObj []), (''login'', JObj [(''account'', JStr ''u1'')])], False)]"
proof -
  have 1: "FindByLogin (JStr ''alice'') (Inr (Some \<lparr>accountId = ''u1''\<rparr>))
     \<in> set (events_of example_ctx
         (post_login (example_world ''login'') (example_request [(''login'', JStr ''alice'')]) example_ctx))"
    unfolding example_post_login_events by simp
  have 2: "FindByLogin (JStr ''bob'') (Inr None)
     \<in> set (events_of example_ctx
         (post_login (example_world ''login'') (example_request [(''login'', JStr ''bob'')]) example_ctx))"
    unfolding example_post_login_unknown_events by simp
  have 3: "FindByFederated ''google'' [(''sub'', JStr ''g1'')] (Inr (Some \<lparr>accountId = ''u1''\<rparr>))
     \<in> set (events_of example_ctx
         (post_federated example_exchange (example_request [(''provider'', JStr ''google'')]) example_ctx))"
    unfolding example_post_federated_events by simp
  from 1 login_and_federated_resolution
    [of "JStr ''alice''" "\<lparr>accountId = ''u1''\<rparr>" example_ctx "example_world ''login''"
        "example_request [(''login'', JStr ''alice'')]"]
  have a: "resolutions (events_of example_ctx
         (post_login (example_world ''login'') (example_request [(''login'', JStr ''alice'')]) example_ctx)) =
       [(JObj [(''select_account'', JObj []), (''login'', JObj [(''account'', JStr ''u1'')])], False)]"
    by simp
  from 2 login_and_federated_resolution
    [of "JStr ''bob''" _ example_ctx "example_world ''login''"
        "example_request [(''login'', JStr ''bob'')]"]
  have b: "resolutions (events_of example_ctx
         (post_login (example_world ''login'') (example_request [(''login'', JStr ''bob'')]) example_ctx)) =
       [(JObj [], False)]"
    by blast
  from 3 login_and_federated_resolution
    [of _ "\<lparr>accountId = ''u1''\<rparr>" example_ctx example_exchange
        "example_request [(''provider'', JStr ''google'')]" "''google''" "[(''sub'', JStr ''g1'')]"]
  have c: "resolutions (events_of example_ctx
         (post_federated example_exchange (example_request [(''provider'', JStr ''google'')]) example_ctx)) =
       [(JObj [(''select_account'', JObj []), (''login'', JObj [(''account'', JStr ''u1'')])], False)]"
    by simp
  from 1 2 3 a b c show ?thesis by blast
qed





text \<open>
  Claim C5. On \<open>POST /interaction/:uid/continue\<close> with the pending prompt
  \<open>select_account\<close>: when the body asks for \<open>switch\<close> and \<open>params.prompt\<close> is a
  non-empty string \<open>p\<close>, the handler sets it to \<open>p\<close> followed by \<open> login\<close> (the old
  space-separated list with \<open>login\<close> appended); when \<open>params.prompt\<close> is unset (falsy), it
  sets it to \<open>logout\<close>; in both cases it calls \<open>interaction.save\<close> on the mutated
  parameters before it resolves, and resolves once \<open>save\<close> has returned (an error thrown by
  \<open>save\<close> propagates instead). Without \<open>switch\<close> it resolves at once. Every resolution
  of the route is \<open>{select_account: {}}\<close> with \<open>mergeWithLastSubmission: false\<close>.
\<close>

theorem continue_switch_account:
  assumes "interactionDetails w = Inr d" and "name (prompt d) = ''select_account''"
  shows
   "(truthy (field (body rq) ''switch'') \<and> field (params d) ''prompt'' = JStr p \<and> p \<noteq> [] \<longrightarrow>
       split_on CHR '' '' (p @ '' login'') = split_on CHR '' '' p @ [''login'']
       \<and> (\<forall>u. save w (AList.update ''prompt'' (JStr (p @ '' login'')) (params d)) = Inr u \<longrightarrow>
             events_of ctx (post_continue w rq ctx) =
               [InteractionDetails,
                Save (AList.update ''prompt'' (JStr (p @ '' login'')) (params d)),
                InteractionFinished (JObj [(''select_account'', JObj [])]) False]
             \<and> fst (post_continue w rq ctx) =
                 interactionFinished w (JObj [(''select_account'', JObj [])]) False)
       \<and> (\<forall>e. save w (AList.update ''prompt'' (JStr (p @ '' login'')) (params d)) = Inl e \<longrightarrow>
             events_of ctx (post_continue w rq ctx) =
               [InteractionDetails,
                Save (AList.update ''prompt'' (JStr (p @ '' login'')) (params d))]
             \<and> fst (post_continue w rq ctx) = Inl e))
    \<and> (truthy (field (body rq) ''switch'') \<and> \<not> truthy (field (params d) ''prompt'') \<longrightarrow>
         (\<forall>u. save w (AList.update ''prompt'' (JStr ''logout'') (params d)) = Inr u \<longrightarrow>
             events_of ctx (post_continue w rq ctx) =
               [InteractionDetails,
                Save (AList.update ''prompt'' (JStr ''logout'') (params d)),
                InteractionFinished (JObj [(''select_account'', JObj [])]) False]
             \<and> fst (post_continue w rq ctx) =
                 interactionFinished w (JObj [(''select_account'', JObj [])]) False)
       \<and> (\<forall>e. save w (AList.update ''prompt'' (JStr ''logout'') (params d)) = Inl e \<longrightarrow>
             events_of ctx (post_continue w rq ctx) =
               [InteractionDetails,
                Save (AList.update ''prompt'' (JStr ''logout'') (params d))]
             \<and> fst (post_continue w rq ctx) = Inl e))
    \<and> (\<not> truthy (field (body rq) ''switch'') \<longrightarrow>
         events_of ctx (post_continue w rq ctx) =
           [InteractionDetails, InteractionFinished (JObj [(''select_account'', JObj [])]) False]
         \<and> fst (post_continue w rq ctx) =
             interactionFinished w (JObj [(''select_account'', JObj [])]) False)
    \<and> (\<forall>x \<in> set (resolutions (events_of ctx (post_continue w rq ctx))).
         x = (JObj [(''select_account'', JObj [])], False))"
proof (intro conjI impI ballI)
  assume a: "truthy (field (body rq) ''switch'') \<and> field (params d) ''prompt'' = JStr p \<and> p \<noteq> []"
  show "split_on CHR '' '' (p @ '' login'') = split_on CHR '' '' p @ [''login'']"
    using split_on_append [of "CHR '' ''" p "''login''"] by simp
  from a have sw: "switch_prompt d (ctx\<lparr>trace := trace ctx @ [InteractionDetails]\<rparr>) =
      (Inr (d\<lparr>params := AList.update ''prompt'' (JStr (p @ '' login'')) (params d)\<rparr>),
       ctx\<lparr>trace := trace ctx @ [InteractionDetails]\<rparr>)"
    by (simp add: switch_prompt_set)
  from a post_continue_switch [OF assms _ sw]
  show "\<forall>u. save w (AList.update ''prompt'' (JStr (p @ '' login'')) (params d)) = Inr u \<longrightarrow>
             events_of ctx (post_continue w rq ctx) =
               [InteractionDetails,
                Save (AList.update ''prompt'' (JStr (p @ '' login'')) (params d)),
                InteractionFinished (JObj [(''select_account'', JObj [])]) False]
             \<and> fst (post_continue w rq ctx) =
                 interactionFinished w (JObj [(''select_account'', JObj [])]) False"
    by simp
  from a post_continue_switch [OF assms _ sw]
  show "\<forall>e. save w (AList.update ''prompt'' (JStr (p @ '' login'')) (params d)) = Inl e \<longrightarrow>
             events_of ctx (post_continue w rq ctx) =
               [InteractionDetails,
                Save (AList.update ''prompt'' (JStr (p @ '' login'')) (params d))]
             \<and> fst (post_continue w rq ctx) = Inl e"
    by simp
next
  assume a: "truthy (field (body rq) ''switch'') \<and> \<not> truthy (field (params d) ''prompt'')"
  then have sw: "switch_prompt d (ctx\<lparr>trace := trace ctx @ [InteractionDetails]\<rparr>) =
      (Inr (d\<lparr>params := AList.update ''prompt'' (JStr ''logout'') (params d)\<rparr>),
       ctx\<lparr>trace := trace ctx @ [InteractionDetails]\<rparr>)"
    by (simp add: switch_prompt_unset)
  from a post_continue_switch [OF assms _ sw]
  show "\<forall>u. save w (AList.update ''prompt'' (JStr ''logout'') (params d)) = Inr u \<longrightarrow>
             events_of ctx (post_continue w rq ctx) =
               [InteractionDetails,
                Save (AList.update ''prompt'' (JStr ''logout'') (params d)),
                InteractionFinished (JObj [(''select_account'', JObj [])]) False]
             \<and> fst (post_continue w rq ctx) =
                 interactionFinished w (JObj [(''select_account'', JObj [])]) False"
    by simp
  from a post_continue_switch [OF assms _ sw]
  show "\<forall>e. save w (AList.update ''prompt'' (JStr ''logout'') (params d)) = Inl e \<longrightarrow>
             events_of ctx (post_continue w rq ctx) =
               [InteractionDetails,
                Save (AList.update ''prompt'' (JStr ''logout'') (params d))]
             \<and> fst (post_continue w rq ctx) = Inl e"
    by simp
next
  assume "\<not> truthy (field (body rq) ''switch'')"
  with post_continue_no_switch [OF assms]
  show "events_of ctx (post_continue w rq ctx) =
           [InteractionDetails, InteractionFinished (JObj [(''select_account'', JObj [])]) False]"
    and "fst (post_continue w rq ctx) =
             interactionFinished w (JObj [(''select_account'', JObj [])]) False"
    by simp_all
next
  fix x
  assume "x \<in> set (resolutions (events_of ctx (post_continue w rq ctx)))"
  then show "x = (JObj [(''select_account'', JObj [])], False)"
    by (rule resolutions_post_continue)
qed


theorem continue_switch_account_witness:
  "interactionDetails (example_world ''select_account'') = Inr (example_interaction ''select_account'')
   \<and> name (prompt (example_interaction ''select_account'')) = ''select_account''
   \<and> truthy (field (body (example_request [(''switch'', JStr ''true'')])) ''switch'')
   \<and> field (params (example_interaction ''select_account'')) ''prompt'' = JStr ''consent''
   \<and> events_of example_ctx
        (post_continue (example_world ''select_account'')
           (example_request [(''switch'', JStr ''true'')]) example_ctx) =
       [InteractionDetails,
        Save [(''client_id'', JStr ''foo''), (''prompt'', JStr ''consent login'')],
        InteractionFinished (JObj [(''select_account'', JObj [])]) False]
   \<and> \<not> truthy (field (params ((example_interaction ''select_account'')
          \<lparr>params := [(''client_id'', JStr ''foo'')]\<rparr>)) ''prompt'')
   \<and> events_of example_ctx
        (post_continue example_no_prompt (example_request [(''switch'', JStr ''true'')]) example_ctx) =
       [InteractionDetails,
        Save [(''client_id'', JStr ''foo''), (''prompt'', JStr ''logout'')],
        InteractionFinished (JObj [(''select_account'', JObj [])]) False]
   \<and> \<not> truthy (field (body (example_request [])) ''switch'')
   \<and> events_of example_ctx
        (post_continue (example_world ''select_account'') (example_request []) example_ctx) =
       [InteractionDetails, InteractionFinished (JObj [(''select_account'', JObj [])]) False]"
proof -
  let ?w = "example_world ''select_account''"
  let ?d = "example_interaction ''select_account''"
  let ?d' = "(example_interaction ''select_account'')\<lparr>params := [(''client_id'', JStr ''foo'')]\<rparr>"
  let ?rq = "example_request [(''switch'', JStr ''true'')]"
  have h: "interactionDetails ?w = Inr ?d" "name (prompt ?d) = ''select_account''"
    by (simp_all add: example_defs)
  have h': "interactionDetails example_no_prompt = Inr ?d'" "name (prompt ?d') = ''select_account''"
    by (simp_all add: example_no_prompt_def example_defs)
  have sw: "truthy (field (body ?rq) ''switch'')" "\<not> truthy (field (body (example_request [])) ''switch'')"
    by (simp_all add: example_defs field_def)
  have p: "field (params ?d) ''prompt'' = JStr ''consent''" "''consent'' \<noteq> []"
    "\<not> truthy (field (params ?d') ''prompt'')"
    by (simp_all add: example_defs field_def)
  have ps: "AList.update ''prompt'' (JStr (''consent'' @ '' login'')) (params ?d) =
      [(''client_id'', JStr ''foo''), (''prompt'', JStr ''consent login'')]"
    "AList.update ''prompt'' (JStr ''logout'') (params ?d') =
      [(''client_id'', JStr ''foo''), (''prompt'', JStr ''logout'')]"
    by (simp_all add: example_defs)
  have sv: "save ?w [(''client_id'', JStr ''foo''), (''prompt'', JStr ''consent login'')] = Inr ()"
    "save example_no_prompt [(''client_id'', JStr ''foo''), (''prompt'', JStr ''logout'')] = Inr ()"
    by (simp_all add: example_no_prompt_def example_defs)
  from continue_switch_account [OF h, of ?rq "''consent''" example_ctx] sw p sv
  have 1: "events_of example_ctx (post_continue ?w ?rq example_ctx) =
       [InteractionDetails,
        Save [(''client_id'', JStr ''foo''), (''prompt'', JStr ''consent login'')],
        InteractionFinished (JObj [(''select_account'', JObj [])]) False]"
    unfolding ps by blast
  from continue_switch_account [OF h', of ?rq _ example_ctx] sw p sv
  have 2: "events_of example_ctx (post_continue example_no_prompt ?rq example_ctx) =
       [InteractionDetails,
        Save [(''client_id'', JStr ''foo''), (''prompt'', JStr ''logout'')],
        InteractionFinished (JObj [(''select_account'', JObj [])]) False]"
    unfolding ps by blast
  from continue_switch_account [OF h, of "example_request []" _ example_ctx] sw
  have 3: "events_of example_ctx (post_continue ?w (example_request []) example_ctx) =
       [InteractionDetails, InteractionFinished (JObj [(''select_account'', JObj [])]) False]"
    by blast
  from h sw p 1 2 3 show ?thesis by blast
qed

text \<open>
  Claim C6. Whatever a route of the router resolves, it passes
  \<open>mergeWithLastSubmission: true\<close> exactly when the route is
  \<open>POST /interaction/:uid/confirm\<close>. Every resolution of the confirm route is the consent
  result with empty \<open>rejectedScopes\<close>, empty \<open>rejectedClaims\<close> and \<open>replace: false\<close>;
  and with the pending prompt \<open>consent\<close> the route does resolve: its calls are
  \<open>interactionDetails\<close>, then \<open>interactionFinished\<close> with that result.
\<close>

theorem confirm_is_the_only_merging_route:
  "(\<forall>x \<in> set (resolutions (events_of ctx (router r w rq ctx))). snd x = (r = PostConfirm))
   \<and> (\<forall>x \<in> set (resolutions (events_of ctx (router PostConfirm w rq ctx))).
         x = (JObj [(''consent'',
                     JObj [(''rejectedScopes'', JArr []), (''rejectedClaims'', JArr []),
                           (''replace'', JBool False)])], True))
   \<and> (\<forall>d. interactionDetails w = Inr d \<and> name (prompt d) = ''consent'' \<longrightarrow>
         events_of ctx (router PostConfirm w rq ctx) =
           [InteractionDetails,
            InteractionFinished
              (JObj [(''consent'',
                      JObj [(''rejectedScopes'', JArr []), (''rejectedClaims'', JArr []),
                            (''replace'', JBool False)])]) True])"
proof (intro conjI ballI allI impI)
  fix x
  assume "x \<in> set (resolutions (events_of ctx (router r w rq ctx)))"
  then show "snd x = (r = PostConfirm)"
    unfolding events_of_router by (rule resolutions_handler)
next
  fix x
  assume "x \<in> set (resolutions (events_of ctx (router PostConfirm w rq ctx)))"
  then have "x = (consent_result, True)"
    unfolding events_of_router handler.simps by (rule resolutions_post_confirm)
  then show "x = (JObj [(''consent'',
                     JObj [(''rejectedScopes'', JArr []), (''rejectedClaims'', JArr []),
                           (''replace'', JBool False)])], True)"
    by (simp add: consent_result_def)
next
  fix d
  assume "interactionDetails w = Inr d \<and> name (prompt d) = ''consent''"
  then show "events_of ctx (router PostConfirm w rq ctx) =
           [InteractionDetails,
            InteractionFinished
              (JObj [(''consent'',
                      JObj [(''rejectedScopes'', JArr []), (''rejectedClaims'', JArr []),
                            (''replace'', JBool False)])]) True]"
    unfolding events_of_router handler.simps post_confirm_events
    by (simp add: consent_result_def)
qed

theorem confirm_is_the_only_merging_route_witness:
  "interactionDetails (example_world ''consent'') = Inr (example_interaction ''consent'')
   \<and> name (prompt (example_interaction ''consent'')) = ''consent''
   \<and> events_of example_ctx (router PostConfirm (example_world ''consent'') (example_request []) example_ctx) =
       [InteractionDetails,
        InteractionFinished
          (JObj [(''consent'',
                  JObj [(''rejectedScopes'', JArr []), (''rejectedClaims'', JArr []),
                        (''replace'', JBool False)])]) True]
   \<and> (JObj [(''error'', JStr ''access_denied''),
             (''error_description'', JStr ''End-User aborted interaction'')], False)
       \<in> set (resolutions (events_of example_ctx
             (router GetAbort (example_world ''consent'') (example_request []) example_ctx)))
   \<and> snd (JObj [(''error'', JStr ''access_denied''),
             (''error_description'', JStr ''End-User aborted interaction'')], False) =
       (GetAbort = PostConfirm)"
proof -
  let ?w = "example_world ''consent''"
  have h: "interactionDetails ?w = Inr (example_interaction ''consent'')"
    "name (prompt (example_interaction ''consent'')) = ''consent''"
    by (simp_all add: example_defs)
  have m: "(JObj [(''error'', JStr ''access_denied''),
             (''error_description'', JStr ''End-User aborted interaction'')], False)
       \<in> set (resolutions (events_of example_ctx
             (router GetAbort ?w (example_request []) example_ctx)))"
    unfolding events_of_router
    by (simp add: get_abort_def call_interactionFinished_def emit_def events_of_def)
  from confirm_is_the_only_merging_route [of example_ctx PostConfirm ?w "example_request []"] h
  have 1: "events_of example_ctx (router PostConfirm ?w (example_request []) example_ctx) =
       [InteractionDetails,
        InteractionFinished
          (JObj [(''consent'',
                  JObj [(''rejectedScopes'', JArr []), (''rejectedClaims'', JArr []),
                        (''replace'', JBool False)])]) True]"
    by blast
  from confirm_is_the_only_merging_route [of example_ctx GetAbort ?w "example_request []"] m
  have 2: "snd (JObj [(''error'', JStr ''access_denied''),
             (''error_description'', JStr ''End-User aborted interaction'')], False) =
       (GetAbort = PostConfirm)"
    by blast
  from h m 1 2 show ?thesis by blast
qed

text \<open>
  Claim C7. For any handler behind the router's middleware: if the handler throws the
  engine's \<open>SessionNotFound\<close>, the middleware returns normally, sets the response status
  to the error's status, and renders the static error page with the error's message under
  \<open>error\<close> and its \<open>error_description\<close>; any other error the handler throws is thrown
  on unchanged. Every route of the router runs behind this middleware.
\<close>

theorem middleware_session_not_found:
  "(nxt (ctx_set ''Cache-Control'' ''no-cache, no-store'' (ctx_set ''Pragma'' ''no-cache'' ctx))
       = (Inl (SessionNotFound st message error_description), ctx') \<longrightarrow>
     middleware nxt ctx =
       (Inr (), ctx'\<lparr>status := st, ctype := ''html'',
          response_body := page_head @
            ''<pre><strong>error</strong>: '' @ message @ ''</pre>'' @
            ''<pre><strong>error_description</strong>: '' @ error_description @ ''</pre>'' @
            page_tail\<rparr>))
   \<and> (nxt (ctx_set ''Cache-Control'' ''no-cache, no-store'' (ctx_set ''Pragma'' ''no-cache'' ctx))
       = (Inl e, ctx') \<and> (\<forall>s m ds. e \<noteq> SessionNotFound s m ds) \<longrightarrow>
     middleware nxt ctx = (Inl e, ctx'))
   \<and> router r w rq ctx = middleware (handler r w rq) ctx"
  by (cases e) (simp_all add: router_def middleware_def renderError_def Let_def)

theorem middleware_session_not_found_witness:
  "post_login example_expired (example_request [])
       (ctx_set ''Cache-Control'' ''no-cache, no-store'' (ctx_set ''Pragma'' ''no-cache'' example_ctx)) =
     (Inl (SessionNotFound 400 ''invalid_request'' ''interaction session not found''),
      emit InteractionDetails
        (ctx_set ''Cache-Control'' ''no-cache, no-store'' (ctx_set ''Pragma'' ''no-cache'' example_ctx)))
   \<and> router PostLogin example_expired (example_request []) example_ctx =
     (Inr (),
      (emit InteractionDetails
        (ctx_set ''Cache-Control'' ''no-cache, no-store'' (ctx_set ''Pragma'' ''no-cache'' example_ctx)))
      \<lparr>status := 400, ctype := ''html'',
        response_body := page_head @
          ''<pre><strong>error</strong>: invalid_request</pre>'' @
          ''<pre><strong>error_description</strong>: interaction session not found</pre>'' @
          page_tail\<rparr>)
   \<and> post_confirm (example_world ''login'') (example_request [])
       (ctx_set ''Cache-Control'' ''no-cache, no-store'' (ctx_set ''Pragma'' ''no-cache'' example_ctx)) =
     (Inl (AssertionError (JStr ''login'') (JStr ''consent'')),
      emit InteractionDetails
        (ctx_set ''Cache-Control'' ''no-cache, no-store'' (ctx_set ''Pragma'' ''no-cache'' example_ctx)))
   \<and> router PostConfirm (example_world ''login'') (example_request []) example_ctx =
     (Inl (AssertionError (JStr ''login'') (JStr ''consent'')),
      emit InteractionDetails
        (ctx_set ''Cache-Control'' ''no-cache, no-store'' (ctx_set ''Pragma'' ''no-cache'' example_ctx)))"
proof -
  let ?c = "ctx_set ''Cache-Control'' ''no-cache, no-store'' (ctx_set ''Pragma'' ''no-cache'' example_ctx)"
  have 1: "post_login example_expired (example_request []) ?c =
     (Inl (SessionNotFound 400 ''invalid_request'' ''interaction session not found''),
      emit InteractionDetails ?c)"
    by (simp add: post_login_def andThen_def call_interactionDetails_def example_expired_def
          example_world_def)
  have 2: "post_confirm (example_world ''login'') (example_request []) ?c =
     (Inl (AssertionError (JStr ''login'') (JStr ''consent'')), emit InteractionDetails ?c)"
    by (simp add: post_confirm_def andThen_def call_interactionDetails_def assert_equal_def
          example_world_def example_interaction_def)
  from middleware_session_not_found
    [of "handler PostLogin example_expired (example_request [])" example_ctx 400 "''invalid_request''"
        "''interaction session not found''" "emit InteractionDetails ?c" _ PostLogin
        example_expired "example_request []"] 1
  have 3: "router PostLogin example_expired (example_request []) example_ctx =
     (Inr (),
      (emit InteractionDetails ?c)
      \<lparr>status := 400, ctype := ''html'',
        response_body := page_head @
          ''<pre><strong>error</strong>: invalid_request</pre>'' @
          ''<pre><strong>error_description</strong>: interaction session not found</pre>'' @
          page_tail\<rparr>)"
    by simp
  from middleware_session_not_found
    [of "handler PostConfirm (example_world ''login'') (example_request [])" example_ctx _ _ _
        "emit InteractionDetails ?c" "AssertionError (JStr ''login'') (JStr ''consent'')" PostConfirm
        "example_world ''login''" "example_request []"] 2
  have 4: "router PostConfirm (example_world ''login'') (example_request []) example_ctx =
     (Inl (AssertionError (JStr ''login'') (JStr ''consent'')), emit InteractionDetails ?c)"
    by simp
  from 1 2 3 4 show ?thesis by blast
qed

end
